theory Spec2Isabelle
  imports Complex_Main "HOL-Library.Sublist" "HOL-Library.AList"
begin

section \<open>Data model\<close>

text \<open>
  The watch registry (\<^verbatim>\<open>WatchFileList files\<close>) is a vector of \<^verbatim>\<open>WatchFile\<close>
  structs; the kind tag is the enum \<^verbatim>\<open>FileType\<close>.
\<close>

datatype FileType = FRAG_SHADER | VERT_SHADER | GEOMETRY | IMAGE | CUBEMAP | GLSL_DEPENDENCY

record WatchFile =
  type :: FileType
  path :: string
  vFlip :: bool
  lastChange :: int

datatype FboType = COLOR_TEXTURE | COLOR_TEXTURE_DEPTH_BUFFER | COLOR_DEPTH_TEXTURES

text \<open>
  Modelled from the spec: the graphics collaborators \<^verbatim>\<open>Fbo\<close> and \<^verbatim>\<open>Shader\<close> (gl/fbo.h,
  gl/shader.h) are used by the sources but not part of them. A framebuffer is what
  \<^verbatim>\<open>allocate\<close> was last asked for; a program is its table of defines and the two source
  strings last handed to \<^verbatim>\<open>load\<close>. Compilation errors of the backend are not modelled.
\<close>

record Fbo =
  allocated :: bool
  width :: int
  height :: int
  fbo_type :: FboType

definition Fbo_new :: Fbo where
  "Fbo_new = \<lparr>allocated = False, width = 0, height = 0, fbo_type = COLOR_TEXTURE\<rparr>"

definition Fbo_allocate :: "int \<Rightarrow> int \<Rightarrow> FboType \<Rightarrow> Fbo \<Rightarrow> Fbo" where
  "Fbo_allocate w h t f = f\<lparr>allocated := True, width := w, height := h, fbo_type := t\<rparr>"

record Shader =
  m_defines :: "(string \<times> string) list"
  fragSource :: string
  vertSource :: string
  loaded :: bool

definition Shader_new :: Shader where
  "Shader_new = \<lparr>m_defines = [], fragSource = [], vertSource = [], loaded = False\<rparr>"

definition Shader_addDefine :: "string \<Rightarrow> string \<Rightarrow> Shader \<Rightarrow> Shader" where
  "Shader_addDefine d v sh = sh\<lparr>m_defines := AList.update d v (m_defines sh)\<rparr>"

definition Shader_detach :: "Shader \<Rightarrow> Shader" where
  "Shader_detach sh = sh\<lparr>loaded := False\<rparr>"

definition Shader_load :: "string \<Rightarrow> string \<Rightarrow> Shader \<Rightarrow> Shader" where
  "Shader_load fragSrc vertSrc sh = sh\<lparr>fragSource := fragSrc, vertSource := vertSrc, loaded := True\<rparr>"

definition has_define :: "string \<Rightarrow> Shader \<Rightarrow> bool" where
  "has_define d sh = (d \<in> fst ` set (m_defines sh))"

text \<open>
  Modelled from the spec: the 3D scene collaborator (\<^verbatim>\<open>m_scene\<close>) is a black box that
  receives sources and defines and owns a dirty flag.
\<close>

record Scene =
  scene_defines :: "(string \<times> string) list"
  scene_frag :: string
  scene_vert :: string
  scene_change :: bool

definition Scene_loadShaders :: "string \<Rightarrow> string \<Rightarrow> Scene \<Rightarrow> Scene" where
  "Scene_loadShaders fragSrc vertSrc sc = sc\<lparr>scene_frag := fragSrc, scene_vert := vertSrc\<rparr>"

definition Scene_addDefine :: "string \<Rightarrow> string \<Rightarrow> Scene \<Rightarrow> Scene" where
  "Scene_addDefine d v sc = sc\<lparr>scene_defines := AList.update d v (scene_defines sc)\<rparr>"

text \<open>
  The uniform registry \<^verbatim>\<open>uniforms.functions\<close> is a \<^verbatim>\<open>std::map\<close> from the uniform's name
  to a \<^verbatim>\<open>UniformFunction\<close>; of the latter only the declared type and the \<^verbatim>\<open>present\<close>
  flag are state (the two closures are fixed at registration).
\<close>

record UniformFunction =
  uf_type :: string
  present :: bool

definition UniformFunction_new :: UniformFunction where
  "UniformFunction_new = \<lparr>uf_type = [], present = False\<rparr>"

text \<open>
  Modelled from the spec: a user-defined uniform (\<^verbatim>\<open>uniforms.data\<close>, filled by the line
  parser) has an arity, its values and a changed mark. Floats are rationals here.
\<close>

record UniformData =
  ud_size :: nat
  ud_value :: "rat list"
  ud_change :: bool

record Uniforms =
  u_functions :: "string \<rightharpoonup> UniformFunction"
  data :: "string \<rightharpoonup> UniformData"
  buffers :: "Fbo list"
  cubemap :: bool
  change :: bool

text \<open>\<^verbatim>\<open>functions[name]\<close>: \<^verbatim>\<open>std::map::operator[]\<close> inserts a default entry when the key is absent.\<close>

definition functions_subscript :: "string \<Rightarrow> Uniforms \<Rightarrow> Uniforms" where
  "functions_subscript n u =
     (case u_functions u n of
        None \<Rightarrow> u\<lparr>u_functions := (u_functions u)(n \<mapsto> UniformFunction_new)\<rparr>
      | Some f \<Rightarrow> u)"

definition functions_at :: "string \<Rightarrow> Uniforms \<Rightarrow> UniformFunction" where
  "functions_at n u = (case u_functions u n of None \<Rightarrow> UniformFunction_new | Some f \<Rightarrow> f)"

definition set_present :: "string \<Rightarrow> bool \<Rightarrow> Uniforms \<Rightarrow> Uniforms" where
  "set_present n b u = u\<lparr>u_functions := (u_functions u)(n \<mapsto> (functions_at n u)\<lparr>present := b\<rparr>)\<rparr>"

text \<open>
  Modelled from the spec: \<^verbatim>\<open>Uniforms::checkPresenceIn\<close> (uniforms.cpp) is not under src/.
  Spec 4.5: for every registered entry, set \<^verbatim>\<open>present\<close> to whether its name literally
  occurs in either source string.
\<close>

definition checkPresenceIn :: "string \<Rightarrow> string \<Rightarrow> Uniforms \<Rightarrow> Uniforms" where
  "checkPresenceIn vertSrc fragSrc u =
     u\<lparr>u_functions := (\<lambda>n. map_option (\<lambda>f. f\<lparr>present := (sublist n vertSrc \<or> sublist n fragSrc)\<rparr>)
                                   (u_functions u n))\<rparr>"

text \<open>Modelled from the spec: \<^verbatim>\<open>Uniforms::flagChange\<close> marks the uniform sub-owner dirty.\<close>

definition Uniforms_flagChange :: "Uniforms \<Rightarrow> Uniforms" where
  "Uniforms_flagChange u = u\<lparr>change := True\<rparr>"

text \<open>
  The members of \<^verbatim>\<open>class Sandbox\<close> that the reload engine and the render loop read or
  write. Times of the recorder are floats in the source and rationals here (rounding is
  not modelled). \<^verbatim>\<open>saved\<close> logs, oldest first, the file names handed to \<^verbatim>\<open>onScreenshot\<close>.
\<close>

record Sandbox =
  frag_index :: int
  vert_index :: int
  geom_index :: int
  fxaa :: bool
  screenshotFile :: string
  uniforms :: Uniforms
  m_frag_source :: string
  m_vert_source :: string
  m_frag_dependencies :: "string list"
  m_vert_dependencies :: "string list"
  m_canvas_shader :: Shader
  m_scene :: Scene
  m_buffers_shaders :: "Shader list"
  m_buffers_total :: int
  m_postprocessing_shader :: Shader
  m_postprocessing :: bool
  m_scene_fbo :: Fbo
  m_record_fbo :: Fbo
  m_record_fdelta :: rat
  m_record_head :: rat
  m_record_end :: rat
  m_record_counter :: int
  m_record :: bool
  m_histogram :: bool
  m_frame :: int
  m_change :: bool
  m_initialized :: bool
  saved :: "string list"

text \<open>
  What the sources take from collaborators that are not part of them: the marker scans of
  tools/text.h (the count of buffer passes is a number of markers found, a natural
  number), the include-expanding loader of io/fs.h with its two out-parameters, \<^verbatim>\<open>stat\<close>,
  the list merge, the window size and the built-in shader strings.
\<close>

record Env =
  count_buffers :: "string \<Rightarrow> nat"
  check_for_postprocessing :: "string \<Rightarrow> bool"
  loadFromPath :: "string \<Rightarrow> string \<Rightarrow> string list \<Rightarrow> bool \<times> string \<times> string list"
  st_mtime :: "string \<Rightarrow> int"
  merge :: "string list \<Rightarrow> string list \<Rightarrow> string list"
  getWindowWidth :: int
  getWindowHeight :: int
  billboard_vert :: string
  fxaa_frag :: string

section \<open>Helpers of tools/text.h\<close>

text \<open>
  Modelled from the spec: \<^verbatim>\<open>toString(int)\<close> (tools/text.h) is not under src/; it renders
  a non-negative loop index in decimal.
\<close>

definition digit_char :: "nat \<Rightarrow> char" where
  "digit_char d = char_of (48 + d)"

fun toString_nat :: "nat \<Rightarrow> string" where
  "toString_nat n = (if n < 10 then [digit_char n] else toString_nat (n div 10) @ [digit_char (n mod 10)])"

definition toString :: "int \<Rightarrow> string" where
  "toString i = toString_nat (nat i)"

text \<open>A counting loop \<^verbatim>\<open>for (int i = a; i < n; i++) body(i)\<close> whose bound the body leaves alone.\<close>

function for_loop :: "int \<Rightarrow> int \<Rightarrow> (int \<Rightarrow> 's \<Rightarrow> 's) \<Rightarrow> 's \<Rightarrow> 's" where
  "for_loop i n body s = (if i < n then for_loop (i + 1) n body (body i s) else s)"
  by pat_completeness auto
termination
  by (relation "measure (\<lambda>(i, n, body, s). nat (n - i))") auto

section \<open>The reload engine (Sandbox::reloadShaders, Sandbox::updateBuffers)\<close>

definition flagChange :: "Sandbox \<Rightarrow> Sandbox" where
  "flagChange s = s\<lparr>m_change := True\<rparr>"

text \<open>
  \<^verbatim>\<open>Sandbox::addDefine\<close>: the define goes to the first \<^verbatim>\<open>m_buffers_total\<close> pass shaders,
  to the canvas shader or the scene, and to the post-processing shader. An index past
  the end of \<^verbatim>\<open>m_buffers_shaders\<close> is undefined behaviour in the source and changes
  nothing here.
\<close>

definition addDefine_body :: "string \<Rightarrow> string \<Rightarrow> int \<Rightarrow> Sandbox \<Rightarrow> Sandbox" where
  "addDefine_body d v i s =
     s\<lparr>m_buffers_shaders :=
         (m_buffers_shaders s)[nat i := Shader_addDefine d v (m_buffers_shaders s ! nat i)]\<rparr>"

definition addDefine :: "string \<Rightarrow> string \<Rightarrow> Sandbox \<Rightarrow> Sandbox" where
  "addDefine d v s =
     (let s1 = for_loop 0 (m_buffers_total s) (addDefine_body d v) s;
          s2 = (if geom_index s1 = - 1
                then s1\<lparr>m_canvas_shader := Shader_addDefine d v (m_canvas_shader s1)\<rparr>
                else s1\<lparr>m_scene := Scene_addDefine d v (m_scene s1)\<rparr>)
      in s2\<lparr>m_postprocessing_shader := Shader_addDefine d v (m_postprocessing_shader s2)\<rparr>)"

text \<open>
  \<^verbatim>\<open>Sandbox::_updateBuffers\<close> (an Isabelle name cannot start with an underscore). The
  first loop pushes a fresh framebuffer and a fresh shader and then works on index
  \<^verbatim>\<open>i\<close>; the second one recompiles the shaders that are there.
\<close>

definition allocate_pass :: "Env \<Rightarrow> int \<Rightarrow> Sandbox \<Rightarrow> Sandbox" where
  "allocate_pass env i s =
     (let bs = buffers (uniforms s) @ [Fbo_new];
          bs1 = bs[nat i := Fbo_allocate (getWindowWidth env) (getWindowHeight env) COLOR_TEXTURE (bs ! nat i)];
          shs = m_buffers_shaders s @ [Shader_new];
          shs1 = shs[nat i := Shader_addDefine (''BUFFER_'' @ toString i) [] (shs ! nat i)];
          shs2 = shs1[nat i := Shader_load (m_frag_source s) (billboard_vert env) (shs1 ! nat i)]
      in s\<lparr>uniforms := (uniforms s)\<lparr>buffers := bs1\<rparr>, m_buffers_shaders := shs2\<rparr>)"

definition reload_pass :: "Env \<Rightarrow> int \<Rightarrow> Sandbox \<Rightarrow> Sandbox" where
  "reload_pass env i s =
     (let shs = m_buffers_shaders s;
          shs1 = shs[nat i := Shader_addDefine (''BUFFER_'' @ toString i) [] (shs ! nat i)];
          shs2 = shs1[nat i := Shader_load (m_frag_source s) (billboard_vert env) (shs1 ! nat i)]
      in s\<lparr>m_buffers_shaders := shs2\<rparr>)"

definition updateBuffers :: "Env \<Rightarrow> Sandbox \<Rightarrow> Sandbox" where
  "updateBuffers env s =
     (if m_buffers_total s \<noteq> int (length (buffers (uniforms s)))
      then for_loop 0 (m_buffers_total s) (allocate_pass env)
             (s\<lparr>uniforms := (uniforms s)\<lparr>buffers := []\<rparr>, m_buffers_shaders := []\<rparr>)
      else for_loop 0 (int (length (m_buffers_shaders s))) (reload_pass env) s)"

text \<open>
  The dependency step of \<^verbatim>\<open>reloadShaders\<close>. The source erases from the back,
  \<^verbatim>\<open>for (int i = size - 1; i >= 0; i--)\<close>; the counter here is \<^verbatim>\<open>i + 1\<close>. A new entry gets
  its type, path and time; \<^verbatim>\<open>vFlip\<close> is left unset by the source (it is read for images
  and cubemaps only) and is \<open>False\<close> here.
\<close>

definition erase :: "'a list \<Rightarrow> nat \<Rightarrow> 'a list" where
  "erase xs i = take i xs @ drop (Suc i) xs"

fun remove_dependencies :: "nat \<Rightarrow> WatchFile list \<Rightarrow> WatchFile list" where
  "remove_dependencies 0 files = files"
| "remove_dependencies (Suc i) files =
     remove_dependencies i (if type (files ! i) = GLSL_DEPENDENCY then erase files i else files)"

fun add_dependencies :: "Env \<Rightarrow> string list \<Rightarrow> WatchFile list \<Rightarrow> WatchFile list" where
  "add_dependencies env [] files = files"
| "add_dependencies env (p # ps) files =
     add_dependencies env ps
       (files @ [\<lparr>type = GLSL_DEPENDENCY, path = p, vFlip = False, lastChange = st_mtime env p\<rparr>])"

definition update_dependencies :: "Env \<Rightarrow> Sandbox \<Rightarrow> WatchFile list \<Rightarrow> WatchFile list" where
  "update_dependencies env s files =
     (let new_dependencies = merge env (m_frag_dependencies s) (m_vert_dependencies s)
      in add_dependencies env new_dependencies (remove_dependencies (length files) files))"

definition reload_program :: "Sandbox \<Rightarrow> Sandbox" where
  "reload_program s =
     (if geom_index s = - 1
      then s\<lparr>m_canvas_shader :=
               Shader_load (m_frag_source s) (m_vert_source s) (Shader_detach (m_canvas_shader s))\<rparr>
      else s\<lparr>m_scene := Scene_loadShaders (m_frag_source s) (m_vert_source s) (m_scene s)\<rparr>)"

definition update_uniforms :: "Sandbox \<Rightarrow> Sandbox" where
  "update_uniforms s =
     (let s1 = s\<lparr>uniforms :=
                  Uniforms_flagChange (checkPresenceIn (m_vert_source s) (m_frag_source s) (uniforms s))\<rparr>
      in if cubemap (uniforms s1)
         then addDefine ''SCENE_CUBEMAP'' ''u_cubeMap'' (addDefine ''SCENE_SH_ARRAY'' ''u_SH'' s1)
         else s1)"

definition update_buffers_total :: "Env \<Rightarrow> Sandbox \<Rightarrow> Sandbox" where
  "update_buffers_total env s =
     updateBuffers env (s\<lparr>m_buffers_total := int (count_buffers env (m_frag_source s))\<rparr>)"

definition update_postprocessing :: "Env \<Rightarrow> Sandbox \<Rightarrow> Sandbox" where
  "update_postprocessing env s =
     (if check_for_postprocessing env (m_frag_source s)
      then s\<lparr>m_postprocessing_shader :=
               Shader_load (m_frag_source s) (billboard_vert env)
                 (Shader_addDefine ''POSTPROCESSING'' [] (m_postprocessing_shader s)),
             m_postprocessing := True\<rparr>
      else if fxaa s
      then s\<lparr>m_postprocessing_shader :=
               Shader_load (fxaa_frag env) (billboard_vert env) (m_postprocessing_shader s),
             uniforms := set_present ''u_scene'' True (uniforms s),
             m_postprocessing := True\<rparr>
      else s\<lparr>m_postprocessing := False\<rparr>)"

definition update_scene_fbo :: "Env \<Rightarrow> Sandbox \<Rightarrow> Sandbox" where
  "update_scene_fbo env s =
     (if m_postprocessing s \<or> m_histogram s
      then (let t = (if present (functions_at ''u_sceneDepth'' (uniforms s))
                     then COLOR_DEPTH_TEXTURES else COLOR_TEXTURE_DEPTH_BUFFER);
                s1 = s\<lparr>uniforms := functions_subscript ''u_sceneDepth'' (uniforms s)\<rparr>
            in if \<not> allocated (m_scene_fbo s1) \<or> fbo_type (m_scene_fbo s1) \<noteq> t
               then s1\<lparr>m_scene_fbo :=
                        Fbo_allocate (getWindowWidth env) (getWindowHeight env) t (m_scene_fbo s1)\<rparr>
               else s1)
      else s)"

definition reloadShaders :: "Env \<Rightarrow> Sandbox \<Rightarrow> WatchFile list \<Rightarrow> Sandbox \<times> WatchFile list" where
  "reloadShaders env s files =
     (let s1 = reload_program (flagChange s);
          files1 = update_dependencies env s1 files;
          s2 = update_uniforms s1;
          s3 = update_buffers_total env s2;
          s4 = update_postprocessing env s3;
          s5 = update_scene_fbo env s4
      in (s5, files1))"


section \<open>Construction (Sandbox::Sandbox)\<close>

text \<open>
  The constructor's initialiser list and the built-in uniform functions it registers
  (the build that is not for the Raspberry Pi registers all ten).
\<close>

definition builtin_functions :: "(string \<times> UniformFunction) list" where
  "builtin_functions =
     [(''u_time'', \<lparr>uf_type = ''float'', present = False\<rparr>),
      (''u_delta'', \<lparr>uf_type = ''float'', present = False\<rparr>),
      (''u_date'', \<lparr>uf_type = ''vec4'', present = False\<rparr>),
      (''u_mouse'', \<lparr>uf_type = ''vec2'', present = False\<rparr>),
      (''u_resolution'', \<lparr>uf_type = ''vec2'', present = False\<rparr>),
      (''u_scene'', \<lparr>uf_type = ''sampler2D'', present = False\<rparr>),
      (''u_sceneDepth'', \<lparr>uf_type = ''sampler2D'', present = False\<rparr>),
      (''u_lightShadowMap'', \<lparr>uf_type = ''sampler2D'', present = False\<rparr>),
      (''u_view2d'', \<lparr>uf_type = ''mat3'', present = False\<rparr>),
      (''u_modelViewProjectionMatrix'', \<lparr>uf_type = ''mat4'', present = False\<rparr>)]"

definition Uniforms_new :: Uniforms where
  "Uniforms_new =
     \<lparr>u_functions = map_of builtin_functions, data = Map.empty, buffers = [],
      cubemap = False, change = False\<rparr>"

definition Sandbox_new :: Sandbox where
  "Sandbox_new =
     \<lparr>frag_index = - 1, vert_index = - 1, geom_index = - 1, fxaa = False,
      screenshotFile = [], uniforms = Uniforms_new,
      m_frag_source = [], m_vert_source = [],
      m_frag_dependencies = [], m_vert_dependencies = [],
      m_canvas_shader = Shader_new,
      m_scene = \<lparr>scene_defines = [], scene_frag = [], scene_vert = [], scene_change = False\<rparr>,
      m_buffers_shaders = [], m_buffers_total = 0,
      m_postprocessing_shader = Shader_new, m_postprocessing = False,
      m_scene_fbo = Fbo_new, m_record_fbo = Fbo_new,
      m_record_fdelta = 4166666667 / 100000000000, m_record_head = 0, m_record_end = 0,
      m_record_counter = 0, m_record = False,
      m_histogram = False, m_frame = 0, m_change = True, m_initialized = False,
      saved = []\<rparr>"

section \<open>File-change events (Sandbox::onFileChange)\<close>

text \<open>
  A change of a dependency is re-routed to the primary shader that includes it. The
  stored source and dependency list are emptied, then \<^verbatim>\<open>loadFromPath\<close> writes into them
  through its two out-parameters and returns whether the file could be opened. The
  branches for geometry, images and the cubemap touch texture objects only, which are
  not part of this model.
\<close>

definition reroute :: "Sandbox \<Rightarrow> WatchFile list \<Rightarrow> nat \<Rightarrow> FileType \<times> string" where
  "reroute s files index =
     (let type0 = type (files ! index); filename = path (files ! index)
      in if type0 = GLSL_DEPENDENCY
         then (if filename \<in> set (m_frag_dependencies s)
               then (FRAG_SHADER, path (files ! nat (frag_index s)))
               else if filename \<in> set (m_vert_dependencies s)
               then (VERT_SHADER, path (files ! nat (vert_index s)))
               else (type0, filename))
         else (type0, filename))"

definition onFileChange :: "Env \<Rightarrow> Sandbox \<Rightarrow> WatchFile list \<Rightarrow> nat \<Rightarrow> Sandbox \<times> WatchFile list" where
  "onFileChange env s files index =
     (let (ty, filename) = reroute s files index;
          (s1, files1) =
            (if ty = FRAG_SHADER
             then (let s0 = s\<lparr>m_frag_source := [], m_frag_dependencies := []\<rparr>;
                       (ok, src, deps) =
                         loadFromPath env filename (m_frag_source s0) (m_frag_dependencies s0);
                       s00 = s0\<lparr>m_frag_source := src, m_frag_dependencies := deps\<rparr>
                   in if ok then reloadShaders env s00 files else (s00, files))
             else if ty = VERT_SHADER
             then (let s0 = s\<lparr>m_vert_source := [], m_vert_dependencies := []\<rparr>;
                       (ok, src, deps) =
                         loadFromPath env filename (m_vert_source s0) (m_vert_dependencies s0);
                       s00 = s0\<lparr>m_vert_source := src, m_vert_dependencies := deps\<rparr>
                   in if ok then reloadShaders env s00 files else (s00, files))
             else (s, files))
      in (flagChange s1, files1))"

section \<open>Change tracking and the frame (Sandbox::haveChange, render, renderDone)\<close>

definition haveChange :: "Sandbox \<Rightarrow> bool" where
  "haveChange s \<longleftrightarrow>
     m_change s \<or> m_record s \<or> screenshotFile s \<noteq> [] \<or>
     scene_change (m_scene s) \<or> change (uniforms s)"

definition unflagChange :: "Sandbox \<Rightarrow> Sandbox" where
  "unflagChange s =
     s\<lparr>m_change := False,
       m_scene := (m_scene s)\<lparr>scene_change := False\<rparr>,
       uniforms := (uniforms s)\<lparr>change := False\<rparr>\<rparr>"

text \<open>
  \<^verbatim>\<open>Sandbox::render\<close>: of the drawing, the lazy allocation of the record and scene
  framebuffers and the look-ups in the uniform registry change the modelled state.
  \<^verbatim>\<open>Sandbox::renderUI\<close> draws the debug views; the flags that switch them on are not
  modelled, and the default entries its look-ups may insert into the uniform registry
  are left out.
\<close>

definition render :: "Env \<Rightarrow> Sandbox \<Rightarrow> Sandbox" where
  "render env s0 =
     (let s = (if geom_index s0 \<noteq> - 1
               then s0\<lparr>uniforms := functions_subscript ''u_lightShadowMap'' (uniforms s0)\<rparr>
               else s0);
          s1 = (if (screenshotFile s \<noteq> [] \<or> m_record s) \<and> \<not> allocated (m_record_fbo s)
                then s\<lparr>m_record_fbo :=
                         Fbo_allocate (getWindowWidth env) (getWindowHeight env)
                           COLOR_TEXTURE_DEPTH_BUFFER (m_record_fbo s)\<rparr>
                else s)
      in if (m_postprocessing s1 \<or> m_histogram s1) \<and> \<not> allocated (m_scene_fbo s1)
         then (let t = (if present (functions_at ''u_sceneDepth'' (uniforms s1))
                        then COLOR_DEPTH_TEXTURES else COLOR_TEXTURE_DEPTH_BUFFER)
               in s1\<lparr>uniforms := functions_subscript ''u_sceneDepth'' (uniforms s1),
                     m_scene_fbo :=
                       Fbo_allocate (getWindowWidth env) (getWindowHeight env) t (m_scene_fbo s1)\<rparr>)
         else s1)"

definition renderUI :: "Sandbox \<Rightarrow> Sandbox" where
  "renderUI s = s"

text \<open>\<^verbatim>\<open>Sandbox::onScreenshot\<close> writes the file when the name is not empty and the window is open.\<close>

definition onScreenshot :: "bool \<Rightarrow> string \<Rightarrow> Sandbox \<Rightarrow> Sandbox" where
  "onScreenshot isGL file s = (if file \<noteq> [] \<and> isGL then s\<lparr>saved := saved s @ [file]\<rparr> else s)"

text \<open>
  \<^verbatim>\<open>toString(m_record_counter, 0, 5, '0') + ".png"\<close>: the counter padded with zeros to five
  digits. In \<^verbatim>\<open>renderDone\<close>, \<^verbatim>\<open>onHistogram\<close> fills a texture and \<^verbatim>\<open>updateViewport\<close> sets the
  viewport of the graphics context; neither is part of the modelled state.
\<close>

definition record_filename :: "int \<Rightarrow> string" where
  "record_filename n = replicate (5 - length (toString n)) CHR ''0'' @ toString n @ ''.png''"

definition renderDone :: "bool \<Rightarrow> Sandbox \<Rightarrow> Sandbox" where
  "renderDone isGL s =
     (let s1 = (if m_record s
                then (let a = onScreenshot isGL (record_filename (m_record_counter s)) s;
                          b = a\<lparr>m_record_head := m_record_head a + m_record_fdelta a,
                                m_record_counter := m_record_counter a + 1\<rparr>
                      in if m_record_head b \<ge> m_record_end b then b\<lparr>m_record := False\<rparr> else b)
                else if screenshotFile s \<noteq> []
                then (onScreenshot isGL (screenshotFile s) s)\<lparr>screenshotFile := []\<rparr>
                else s);
          s2 = unflagChange (s1\<lparr>m_frame := m_frame s1 + 1\<rparr>)
      in if \<not> m_initialized s2 then flagChange (s2\<lparr>m_initialized := True\<rparr>) else s2)"

section \<open>The process state and the render loop (main)\<close>

record World =
  bRun :: bool
  files :: "WatchFile list"
  fileChanged :: int
  outputFile :: string
  fullFps :: bool
  timeOut :: bool
  sandbox :: Sandbox

text \<open>
  One pass through the body of \<^verbatim>\<open>while (isGL() && bRun.load())\<close>. Whether the time limit
  has passed (\<^verbatim>\<open>timeLimit >= 0.0 && getTime() >= timeLimit\<close>) and whether the window is
  open are inputs of the pass.
\<close>

definition loop_guard :: "bool \<Rightarrow> World \<Rightarrow> bool" where
  "loop_guard isGL w \<longleftrightarrow> isGL \<and> bRun w"

definition time_limit :: "bool \<Rightarrow> World \<Rightarrow> World" where
  "time_limit expired w =
     (if expired
      then w\<lparr>timeOut := True, sandbox := (sandbox w)\<lparr>screenshotFile := outputFile w\<rparr>\<rparr>
      else w)"

definition consume :: "Env \<Rightarrow> World \<Rightarrow> World" where
  "consume env w =
     (if fileChanged w \<noteq> - 1
      then (let (s1, files1) = onFileChange env (sandbox w) (files w) (nat (fileChanged w))
            in w\<lparr>sandbox := s1, files := files1, fileChanged := - 1\<rparr>)
      else w)"

definition skip_frame :: "World \<Rightarrow> bool" where
  "skip_frame w \<longleftrightarrow> \<not> timeOut w \<and> \<not> fullFps w \<and> \<not> haveChange (sandbox w)"

definition draw_frame :: "Env \<Rightarrow> bool \<Rightarrow> World \<Rightarrow> World" where
  "draw_frame env isGL w =
     (let w1 = w\<lparr>sandbox := renderDone isGL (renderUI (render env (sandbox w)))\<rparr>
      in if timeOut w1 \<and> screenshotFile (sandbox w1) = [] then w1\<lparr>bRun := False\<rparr> else w1)"

definition main_iteration :: "Env \<Rightarrow> bool \<Rightarrow> bool \<Rightarrow> World \<Rightarrow> World" where
  "main_iteration env expired isGL w =
     (let w1 = consume env (time_limit expired w)
      in if skip_frame w1 then w1 else draw_frame env isGL w1)"

section \<open>Console commands (declareCommands, Sandbox::setup, runCmd)\<close>

text \<open>
  Modelled from the spec: \<^verbatim>\<open>beginsWith\<close>, \<^verbatim>\<open>split\<close> and \<^verbatim>\<open>toFloat\<close> (tools/text.h) are
  not under src/. A command token is compared by exact prefix; a line is split on the
  comma into its non-empty tokens; a token is numeric when it is a decimal literal.
\<close>

definition beginsWith :: "string \<Rightarrow> string \<Rightarrow> bool" where
  "beginsWith str pre \<longleftrightarrow> prefix pre str"

fun split_aux :: "char \<Rightarrow> string \<Rightarrow> string \<Rightarrow> string list" where
  "split_aux sep cur [] = (if cur = [] then [] else [cur])"
| "split_aux sep cur (c # cs) =
     (if c = sep then (if cur = [] then [] else [cur]) @ split_aux sep [] cs
      else split_aux sep (cur @ [c]) cs)"

definition split :: "string \<Rightarrow> char \<Rightarrow> string list" where
  "split str sep = split_aux sep [] str"

definition is_digit :: "char \<Rightarrow> bool" where
  "is_digit c \<longleftrightarrow> 48 \<le> (of_char c :: nat) \<and> (of_char c :: nat) \<le> 57"

fun parse_digits :: "string \<Rightarrow> nat \<Rightarrow> nat option" where
  "parse_digits [] acc = Some acc"
| "parse_digits (c # cs) acc =
     (if is_digit c then parse_digits cs (10 * acc + (of_char c - 48)) else None)"

definition toFloat :: "string \<Rightarrow> rat option" where
  "toFloat str =
     (let neg = (str \<noteq> [] \<and> hd str = CHR ''-'');
          body = (if neg then tl str else str);
          ip = takeWhile (\<lambda>c. c \<noteq> CHR ''.'') body;
          fp = drop 1 (dropWhile (\<lambda>c. c \<noteq> CHR ''.'') body)
      in if ip = [] \<and> fp = [] then None
         else (case (parse_digits ip 0, parse_digits fp 0) of
                 (Some a, Some b) \<Rightarrow>
                   Some ((if neg then - 1 else 1) * (of_nat a + of_nat b / 10 ^ length fp))
               | _ \<Rightarrow> None))"

fun toFloats :: "string list \<Rightarrow> rat list option" where
  "toFloats [] = Some []"
| "toFloats (t # ts) =
     (case toFloat t of
        None \<Rightarrow> None
      | Some v \<Rightarrow> (case toFloats ts of None \<Rightarrow> None | Some vs \<Rightarrow> Some (v # vs)))"

text \<open>
  Modelled from the spec: \<^verbatim>\<open>Uniforms::parseLine\<close> (uniforms.cpp) is not under src/.
  Spec 4.5: split on the delimiter; the first token is the uniform's name (the entry is
  created if it does not exist), one to four remaining numeric tokens give the arity and
  are stored as the values, and the entry is marked changed. Spec 7: a line that is not
  such an assignment is silently ignored.
\<close>

definition parseLine :: "string \<Rightarrow> Uniforms \<Rightarrow> Uniforms" where
  "parseLine line u =
     (case split line CHR '','' of
        [] \<Rightarrow> u
      | name # rest \<Rightarrow>
          (if 1 \<le> length rest \<and> length rest \<le> 4
           then (case toFloats rest of
                   None \<Rightarrow> u
                 | Some vs \<Rightarrow>
                     u\<lparr>data := (data u)(name \<mapsto>
                          \<lparr>ud_size = length vs, ud_value = vs, ud_change = True\<rparr>)\<rparr>)
           else u))"

text \<open>
  A \<^verbatim>\<open>Command\<close> holds its token, its handler, its help text and whether the handler runs
  under the caller's mutex. A handler reads and writes the process state and returns
  whether the line is resolved. Locking has no effect on a single thread and is left out.
\<close>

record Command =
  begins_with :: string
  exec :: "string \<Rightarrow> World \<Rightarrow> bool \<times> World"
  description :: string
  mutex :: bool

text \<open>
  \<^verbatim>\<open>runCmd\<close>: the loop over the registered commands with its \<^verbatim>\<open>resolve\<close> variable and
  its \<^verbatim>\<open>break\<close>, then the fall-back to the line parser of the uniforms.
\<close>

function runCmd_loop :: "Command list \<Rightarrow> string \<Rightarrow> nat \<Rightarrow> bool \<Rightarrow> World \<Rightarrow> bool \<times> World" where
  "runCmd_loop commands cmd i resolve w =
     (if i < length commands
      then (if beginsWith cmd (begins_with (commands ! i))
            then (let (r, w1) = exec (commands ! i) cmd w
                  in if r then (r, w1) else runCmd_loop commands cmd (i + 1) r w1)
            else runCmd_loop commands cmd (i + 1) resolve w)
      else (resolve, w))"
  by pat_completeness auto
termination
  by (relation "measure (\<lambda>(commands, cmd, i, resolve, w). length commands - i)") auto

definition runCmd :: "Command list \<Rightarrow> string \<Rightarrow> World \<Rightarrow> World" where
  "runCmd commands cmd w =
     (let (resolve, w1) = runCmd_loop commands cmd 0 False w
      in if \<not> resolve
         then w1\<lparr>sandbox := (sandbox w1)\<lparr>uniforms := parseLine cmd (uniforms (sandbox w1))\<rparr>\<rparr>
         else w1)"

text \<open>
  The handler of \<^verbatim>\<open>reload\<close>. For the bare command it publishes every index of the
  registry in turn, sleeping after each one; the second component of \<^verbatim>\<open>reload_all\<close> lists
  the states it leaves at those sleeps (what other threads do meanwhile is not part of
  the handler).
\<close>

function reload_all_loop :: "nat \<Rightarrow> World \<Rightarrow> World list \<Rightarrow> World \<times> World list" where
  "reload_all_loop i w published =
     (if i < length (files w)
      then (let w1 = w\<lparr>fileChanged := int i\<rparr> in reload_all_loop (i + 1) w1 (published @ [w1]))
      else (w, published))"
  by pat_completeness auto
termination
  by (relation "measure (\<lambda>(i, w, published). length (files w) - i)") auto

definition reload_all :: "World \<Rightarrow> World \<times> World list" where
  "reload_all w =
     (let (w1, published) = reload_all_loop 0 (w\<lparr>fullFps := True\<rparr>) []
      in (w1\<lparr>fullFps := False\<rparr>, published))"

fun find_path :: "WatchFile list \<Rightarrow> string \<Rightarrow> nat \<Rightarrow> nat option" where
  "find_path [] p i = None"
| "find_path (f # fs) p i = (if path f = p then Some i else find_path fs p (Suc i))"

definition cmd_reload :: "string \<Rightarrow> World \<Rightarrow> bool \<times> World" where
  "cmd_reload line w =
     (if line = ''reload'' \<or> line = ''reload,all'' then (True, fst (reload_all w))
      else (let values = split line CHR '','' in
            if length values = 2 \<and> values ! 0 = ''reload''
            then (case find_path (files w) (values ! 1) 0 of
                    Some i \<Rightarrow> (True, w\<lparr>fileChanged := int i\<rparr>)
                  | None \<Rightarrow> (False, w))
            else (False, w)))"

definition cmd_screenshot :: "string \<Rightarrow> World \<Rightarrow> bool \<times> World" where
  "cmd_screenshot line w =
     (if line = ''screenshot'' \<and> outputFile w \<noteq> []
      then (True, w\<lparr>sandbox := (sandbox w)\<lparr>screenshotFile := outputFile w\<rparr>\<rparr>)
      else (let values = split line CHR '','' in
            if length values = 2
            then (True, w\<lparr>sandbox := (sandbox w)\<lparr>screenshotFile := values ! 1\<rparr>\<rparr>)
            else (False, w)))"

definition cmd_q :: "string \<Rightarrow> World \<Rightarrow> bool \<times> World" where
  "cmd_q line w = (if line = ''q'' then (True, w\<lparr>bRun := False\<rparr>) else (False, w))"

definition cmd_quit :: "string \<Rightarrow> World \<Rightarrow> bool \<times> World" where
  "cmd_quit line w = (if line = ''quit'' then (True, w\<lparr>timeOut := True\<rparr>) else (False, w))"

definition cmd_exit :: "string \<Rightarrow> World \<Rightarrow> bool \<times> World" where
  "cmd_exit line w = (if line = ''exit'' then (True, w\<lparr>timeOut := True\<rparr>) else (False, w))"

text \<open>
  The tokens in registration order: those of \<^verbatim>\<open>declareCommands\<close>, then those that
  \<^verbatim>\<open>Sandbox::setup\<close> appends (the commands of the 3D scene are registered by code that is
  not under src/, and only when a geometry file was given).
\<close>

definition declared_tokens :: "string list" where
  "declared_tokens =
     [''help'', ''version'', ''window_width'', ''window_height'', ''pixel_density'',
      ''screen_size'', ''viewport'', ''mouse'', ''fps'', ''delta'', ''time'', ''date'',
      ''files'', ''reload'', ''frag'', ''vert'', ''dependencies'', ''update'', ''wait'',
      ''fullFps'', ''cursor'', ''screenshot'', ''sequence'', ''q'', ''quit'', ''exit'',
      ''debug'', ''histogram'', ''defines'', ''define,'', ''undefine,'', ''uniforms'',
      ''textures'', ''buffers'', ''lights'', ''light_position'', ''light_color'',
      ''light_falloff'', ''light_intensity'', ''camera_distance'', ''camera_fov'',
      ''camera_position'', ''camera_exposure'']"

text \<open>
  A registry as the two sources build it: the declared tokens in order, with the
  handlers modelled above under their tokens (the other handlers are arbitrary).
\<close>

definition registered :: "Command list \<Rightarrow> bool" where
  "registered commands \<longleftrightarrow>
     map begins_with commands = declared_tokens \<and>
     (\<forall>c \<in> set commands.
        (begins_with c = ''reload'' \<longrightarrow> exec c = cmd_reload) \<and>
        (begins_with c = ''screenshot'' \<longrightarrow> exec c = cmd_screenshot) \<and>
        (begins_with c = ''q'' \<longrightarrow> exec c = cmd_q) \<and>
        (begins_with c = ''quit'' \<longrightarrow> exec c = cmd_quit) \<and>
        (begins_with c = ''exit'' \<longrightarrow> exec c = cmd_exit))"

section \<open>The file watcher (fileWatcherThread)\<close>

text \<open>
  The body of the watcher's inner loop for entry \<^verbatim>\<open>i\<close> has two parts: the test of the
  slot and of the modification time, made without the mutex, and the publication, made
  under it. \<^verbatim>\<open>watcher_entry\<close> is the body run without interruption and
  \<^verbatim>\<open>fileWatcher_sweep\<close> one pass of the inner loop. Writing \<^verbatim>\<open>files[i]\<close> past the end of
  the registry is undefined behaviour in the source and changes no entry here.
\<close>

definition watcher_test :: "Env \<Rightarrow> World \<Rightarrow> nat \<Rightarrow> int option" where
  "watcher_test env w i =
     (if fileChanged w = - 1
      then (let date = st_mtime env (path (files w ! i))
            in if date \<noteq> lastChange (files w ! i) then Some date else None)
      else None)"

definition watcher_publish :: "World \<Rightarrow> nat \<Rightarrow> int \<Rightarrow> World" where
  "watcher_publish w i date =
     w\<lparr>files := (files w)[i := (files w ! i)\<lparr>lastChange := date\<rparr>], fileChanged := int i\<rparr>"

definition watcher_entry :: "Env \<Rightarrow> int \<Rightarrow> World \<Rightarrow> World" where
  "watcher_entry env i w =
     (case watcher_test env w (nat i) of None \<Rightarrow> w | Some date \<Rightarrow> watcher_publish w (nat i) date)"

definition fileWatcher_sweep :: "Env \<Rightarrow> World \<Rightarrow> World" where
  "fileWatcher_sweep env w = for_loop 0 (int (length (files w))) (watcher_entry env) w"

section \<open>The end of Sandbox::setup\<close>

text \<open>
  After loading the sources, \<^verbatim>\<open>setup\<close> ends with \<^verbatim>\<open>reloadShaders(_files);
  uniforms.buffers.clear(); _updateBuffers(); flagChange();\<close>.
\<close>

definition setup_shaders :: "Env \<Rightarrow> Sandbox \<Rightarrow> WatchFile list \<Rightarrow> Sandbox \<times> WatchFile list" where
  "setup_shaders env s registry =
     (let (s1, registry1) = reloadShaders env s registry;
          s2 = s1\<lparr>uniforms := (uniforms s1)\<lparr>buffers := []\<rparr>\<rparr>
      in (flagChange (updateBuffers env s2), registry1))"

section \<open>Notions used in the statements\<close>

text \<open>What one pass of either loop of \<^verbatim>\<open>_updateBuffers\<close> leaves at index \<^verbatim>\<open>i\<close>.\<close>

definition compiled_pass :: "Env \<Rightarrow> string \<Rightarrow> int \<Rightarrow> Shader \<Rightarrow> Shader" where
  "compiled_pass env fragSrc i sh =
     Shader_load fragSrc (billboard_vert env) (Shader_addDefine (''BUFFER_'' @ toString i) [] sh)"

definition fresh_buffer :: "Env \<Rightarrow> Fbo" where
  "fresh_buffer env = Fbo_allocate (getWindowWidth env) (getWindowHeight env) COLOR_TEXTURE Fbo_new"

text \<open>
  The two pass arrays have the length that \<^verbatim>\<open>m_buffers_total\<close> records. This holds
  after construction and is kept by every function of the engine.
\<close>

definition buffers_consistent :: "Sandbox \<Rightarrow> bool" where
  "buffers_consistent s \<longleftrightarrow>
     int (length (m_buffers_shaders s)) = m_buffers_total s \<and>
     length (buffers (uniforms s)) = length (m_buffers_shaders s)"

text \<open>The slot is \<open>-1\<close> or an index into the registry.\<close>

definition valid_slot :: "World \<Rightarrow> bool" where
  "valid_slot w \<longleftrightarrow> fileChanged w = - 1 \<or> (0 \<le> fileChanged w \<and> fileChanged w < int (length (files w)))"

definition dependency_entry :: "Env \<Rightarrow> string \<Rightarrow> WatchFile" where
  "dependency_entry env p =
     \<lparr>type = GLSL_DEPENDENCY, path = p, vFlip = False, lastChange = st_mtime env p\<rparr>"

text \<open>
  Spec 4.3, in the spec's words: go through the registered commands in registration
  order; for each whose token is a prefix of the line invoke the handler, and stop at
  the first handler that returns "handled".
\<close>

fun dispatch :: "Command list \<Rightarrow> string \<Rightarrow> World \<Rightarrow> bool \<times> World" where
  "dispatch [] line w = (False, w)"
| "dispatch (c # cs) line w =
     (if prefix (begins_with c) line
      then (let (handled, w1) = exec c line w
            in if handled then (True, w1) else dispatch cs line w1)
      else dispatch cs line w)"

section \<open>Concrete collaborators and states\<close>

text \<open>
  A small instance of the collaborators, for evaluating the functions on concrete
  inputs: one readable file \<^verbatim>\<open>shader.frag\<close> without includes, a dependency
  \<^verbatim>\<open>inc.glsl\<close> whose time on disk is 2 while every other time is 1, a 500 by 500 window.
\<close>

definition example_env :: Env where
  "example_env =
     \<lparr>count_buffers =
        (\<lambda>src. if sublist ''BUFFER_1'' src then 2 else if sublist ''BUFFER_0'' src then 1 else 0),
      check_for_postprocessing = sublist ''POSTPROCESSING'',
      loadFromPath =
        (\<lambda>p into deps. if p = ''shader.frag'' then (True, into @ ''void main() {}'', deps)
                        else (False, into, deps)),
      st_mtime = (\<lambda>p. if p = ''inc.glsl'' then 2 else 1),
      merge = (\<lambda>a b. a @ filter (\<lambda>x. x \<notin> set a) b),
      getWindowWidth = 500, getWindowHeight = 500,
      billboard_vert = ''billboard_vert'', fxaa_frag = ''fxaa_frag''\<rparr>"

definition frag_entry :: "string \<Rightarrow> WatchFile" where
  "frag_entry p = \<lparr>type = FRAG_SHADER, path = p, vFlip = False, lastChange = 1\<rparr>"

definition dep_entry :: "string \<Rightarrow> WatchFile" where
  "dep_entry p = \<lparr>type = GLSL_DEPENDENCY, path = p, vFlip = False, lastChange = 1\<rparr>"

text \<open>
  A sandbox holding a loaded fragment source with one include, and one started with the
  FXAA fallback.
\<close>

definition stale_sandbox :: Sandbox where
  "stale_sandbox =
     Sandbox_new\<lparr>frag_index := 0, m_frag_source := ''void main() {}'',
                 m_frag_dependencies := [''inc.glsl'']\<rparr>"

definition fxaa_sandbox :: Sandbox where
  "fxaa_sandbox = Sandbox_new\<lparr>fxaa := True, m_frag_source := ''void main() {}''\<rparr>"

text \<open>
  A process at rest on one fragment shader, the same while a recording of ten seconds
  runs, and a registry with the declared tokens whose handlers outside the modelled
  ones resolve nothing.
\<close>

definition idle_world :: World where
  "idle_world =
     \<lparr>bRun = True, files = [frag_entry ''shader.frag''], fileChanged = - 1, outputFile = [],
      fullFps = False, timeOut = False,
      sandbox = Sandbox_new\<lparr>frag_index := 0, m_frag_source := ''void main() {}'', m_change := False\<rparr>\<rparr>"

definition recording_world :: World where
  "recording_world =
     idle_world\<lparr>sandbox := (sandbox idle_world)\<lparr>m_record := True, m_record_head := 0,
                    m_record_end := 10, m_record_fdelta := 1 / 24\<rparr>\<rparr>"

definition handler_of :: "string \<Rightarrow> string \<Rightarrow> World \<Rightarrow> bool \<times> World" where
  "handler_of t =
     (if t = ''reload'' then cmd_reload
      else if t = ''screenshot'' then cmd_screenshot
      else if t = ''q'' then cmd_q
      else if t = ''quit'' then cmd_quit
      else if t = ''exit'' then cmd_exit
      else (\<lambda>line w. (False, w)))"

definition example_commands :: "Command list" where
  "example_commands =
     map (\<lambda>t. \<lparr>begins_with = t, exec = handler_of t, description = [], mutex = False\<rparr>) declared_tokens"

text \<open>A process watching a fragment shader and the file it includes.\<close>

definition watched_world :: World where
  "watched_world =
     \<lparr>bRun = True, files = [frag_entry ''shader.frag'', dep_entry ''inc.glsl''], fileChanged = - 1,
      outputFile = [], fullFps = False, timeOut = False, sandbox = stale_sandbox\<rparr>"

declare for_loop.simps [simp del]
declare reload_all_loop.simps [simp del]
declare runCmd_loop.simps [simp del]

section \<open>Counting loops\<close>

lemma for_loop_stop: "\<not> i < n \<Longrightarrow> for_loop i n body s = s"
  by (simp add: for_loop.simps)

lemma for_loop_step: "i < n \<Longrightarrow> for_loop i n body s = for_loop (i + 1) n body (body i s)"
  by (subst for_loop.simps) simp

lemma for_loop_invariant:
  assumes "P i s" "i \<le> n"
    and step: "\<And>j t. i \<le> j \<Longrightarrow> j < n \<Longrightarrow> P j t \<Longrightarrow> P (j + 1) (body j t)"
  shows "P n (for_loop i n body s)"
  using assms
proof (induction i n body s rule: for_loop.induct)
  case (1 i n body s)
  show ?case
  proof (cases "i < n")
    case True
    have "P n (for_loop (i + 1) n body (body i s))"
    proof (rule "1.IH" [OF True])
      show "P (i + 1) (body i s)" using "1.prems"(1,3) True by simp
      show "i + 1 \<le> n" using True by simp
      show "\<And>j t. i + 1 \<le> j \<Longrightarrow> j < n \<Longrightarrow> P j t \<Longrightarrow> P (j + 1) (body j t)"
        using "1.prems"(3) by simp
    qed
    then show ?thesis using True by (simp add: for_loop_step)
  next
    case False
    with "1.prems" have "i = n" by simp
    with "1.prems" show ?thesis by (simp add: for_loop_stop)
  qed
qed

section \<open>The pass arrays after a reload\<close>

lemma allocate_pass_step:
  assumes "0 \<le> j"
    "t = s\<lparr>uniforms := (uniforms s)\<lparr>buffers := replicate (nat j) (fresh_buffer env)\<rparr>,
          m_buffers_shaders := map (\<lambda>k. compiled_pass env (m_frag_source s) (int k) Shader_new) [0..<nat j]\<rparr>"
  shows "allocate_pass env j t =
     s\<lparr>uniforms := (uniforms s)\<lparr>buffers := replicate (nat (j + 1)) (fresh_buffer env)\<rparr>,
       m_buffers_shaders := map (\<lambda>k. compiled_pass env (m_frag_source s) (int k) Shader_new) [0..<nat (j + 1)]\<rparr>"
proof -
  have n1: "nat (j + 1) = Suc (nat j)" using assms(1) by simp
  have r: "replicate (nat j) x @ [x] = replicate (Suc (nat j)) x" for x :: Fbo
    by (simp add: replicate_append_same)
  show ?thesis
    unfolding assms(2) n1
    by (simp add: allocate_pass_def Let_def nth_append list_update_append compiled_pass_def
        fresh_buffer_def replicate_append_same assms(1))
qed

lemma allocate_loop:
  assumes "0 \<le> n"
  shows "for_loop 0 n (allocate_pass env)
           (s\<lparr>uniforms := (uniforms s)\<lparr>buffers := []\<rparr>, m_buffers_shaders := []\<rparr>) =
     s\<lparr>uniforms := (uniforms s)\<lparr>buffers := replicate (nat n) (fresh_buffer env)\<rparr>,
       m_buffers_shaders := map (\<lambda>k. compiled_pass env (m_frag_source s) (int k) Shader_new) [0..<nat n]\<rparr>"
proof -
  let ?P = "\<lambda>j t. 0 \<le> j \<and> t = s\<lparr>uniforms := (uniforms s)\<lparr>buffers := replicate (nat j) (fresh_buffer env)\<rparr>,
       m_buffers_shaders := map (\<lambda>k. compiled_pass env (m_frag_source s) (int k) Shader_new) [0..<nat j]\<rparr>"
  have "?P n (for_loop 0 n (allocate_pass env)
           (s\<lparr>uniforms := (uniforms s)\<lparr>buffers := []\<rparr>, m_buffers_shaders := []\<rparr>))"
  proof (rule for_loop_invariant [where P = ?P])
    show "?P 0 (s\<lparr>uniforms := (uniforms s)\<lparr>buffers := []\<rparr>, m_buffers_shaders := []\<rparr>)" by simp
    show "0 \<le> n" by (rule assms)
    fix j t
    assume j: "0 \<le> j" "j < n" and t: "?P j t"
    from t have "allocate_pass env j t =
       s\<lparr>uniforms := (uniforms s)\<lparr>buffers := replicate (nat (j + 1)) (fresh_buffer env)\<rparr>,
         m_buffers_shaders := map (\<lambda>k. compiled_pass env (m_frag_source s) (int k) Shader_new) [0..<nat (j + 1)]\<rparr>"
      by (intro allocate_pass_step j) (rule conjunct2)
    with j show "?P (j + 1) (allocate_pass env j t)" by simp
  qed
  then show ?thesis by simp
qed


lemma pass_update:
  assumes "m < length xs"
  shows "(map (\<lambda>k. if k < m then c k (xs ! k) else xs ! k) [0..<length xs])
           [m := c m (map (\<lambda>k. if k < m then c k (xs ! k) else xs ! k) [0..<length xs] ! m)]
         = map (\<lambda>k. if k < Suc m then c k (xs ! k) else xs ! k) [0..<length xs]"
  using assms by (intro nth_equalityI) (auto simp: nth_list_update less_Suc_eq)

lemma pass_update_beyond:
  assumes "\<not> m < length xs"
  shows "map (\<lambda>k. if k < m then c k (xs ! k) else xs ! k) [0..<length xs]
         = map (\<lambda>k. if k < Suc m then c k (xs ! k) else xs ! k) [0..<length xs]"
  using assms by (intro nth_equalityI) auto

lemma reload_pass_step:
  assumes lt: "m < length (m_buffers_shaders s)"
    and t: "t = s\<lparr>m_buffers_shaders :=
            map (\<lambda>k. if k < m then compiled_pass env (m_frag_source s) (int k) (m_buffers_shaders s ! k)
                      else m_buffers_shaders s ! k) [0..<length (m_buffers_shaders s)]\<rparr>"
  shows "reload_pass env (int m) t =
     s\<lparr>m_buffers_shaders :=
            map (\<lambda>k. if k < Suc m then compiled_pass env (m_frag_source s) (int k) (m_buffers_shaders s ! k)
                      else m_buffers_shaders s ! k) [0..<length (m_buffers_shaders s)]\<rparr>"
proof -
  let ?c = "\<lambda>k. compiled_pass env (m_frag_source s) (int k)"
  let ?xs = "m_buffers_shaders s"
  let ?ys = "map (\<lambda>k. if k < m then ?c k (?xs ! k) else ?xs ! k) [0..<length ?xs]"
  have len: "m < length ?ys" using lt by simp
  have "reload_pass env (int m) t = s\<lparr>m_buffers_shaders := ?ys[m := ?c m (?ys ! m)]\<rparr>"
    unfolding t reload_pass_def Let_def compiled_pass_def
    using len by (simp del: map_eq_conv nth_map add: nth_list_update)
  also have "?ys[m := ?c m (?ys ! m)] = map (\<lambda>k. if k < Suc m then ?c k (?xs ! k) else ?xs ! k) [0..<length ?xs]"
    using lt by (rule pass_update)
  finally show ?thesis .
qed

lemma reload_loop:
  "for_loop 0 (int (length (m_buffers_shaders s))) (reload_pass env) s =
     s\<lparr>m_buffers_shaders :=
         map (\<lambda>k. compiled_pass env (m_frag_source s) (int k) (m_buffers_shaders s ! k))
           [0..<length (m_buffers_shaders s)]\<rparr>"
proof -
  let ?n = "int (length (m_buffers_shaders s))"
  let ?Q = "\<lambda>m. s\<lparr>m_buffers_shaders :=
            map (\<lambda>k. if k < m then compiled_pass env (m_frag_source s) (int k) (m_buffers_shaders s ! k)
                      else m_buffers_shaders s ! k) [0..<length (m_buffers_shaders s)]\<rparr>"
  let ?P = "\<lambda>j t. 0 \<le> j \<and> t = ?Q (nat j)"
  have "?P ?n (for_loop 0 ?n (reload_pass env) s)"
  proof (rule for_loop_invariant [where P = ?P])
    show "?P 0 s" by (simp add: map_nth)
    show "0 \<le> ?n" by simp
    fix j t
    assume j: "0 \<le> j" "j < ?n" and t: "?P j t"
    have lt: "nat j < length (m_buffers_shaders s)" using j by simp
    have "reload_pass env (int (nat j)) t = ?Q (Suc (nat j))"
      using lt t by (intro reload_pass_step) simp_all
    moreover have "int (nat j) = j" "Suc (nat j) = nat (j + 1)" using j by simp_all
    ultimately show "?P (j + 1) (reload_pass env j t)" using j by simp
  qed
  then have "for_loop 0 ?n (reload_pass env) s = ?Q (length (m_buffers_shaders s))" by simp
  also have "\<dots> = s\<lparr>m_buffers_shaders :=
         map (\<lambda>k. compiled_pass env (m_frag_source s) (int k) (m_buffers_shaders s ! k))
           [0..<length (m_buffers_shaders s)]\<rparr>"
    by simp
  finally show ?thesis .
qed

lemma addDefine_body_step:
  assumes t: "t = s\<lparr>m_buffers_shaders :=
            map (\<lambda>k. if k < m then Shader_addDefine d v (m_buffers_shaders s ! k)
                      else m_buffers_shaders s ! k) [0..<length (m_buffers_shaders s)]\<rparr>"
  shows "addDefine_body d v (int m) t =
     s\<lparr>m_buffers_shaders :=
            map (\<lambda>k. if k < Suc m then Shader_addDefine d v (m_buffers_shaders s ! k)
                      else m_buffers_shaders s ! k) [0..<length (m_buffers_shaders s)]\<rparr>"
proof -
  let ?c = "\<lambda>k :: nat. Shader_addDefine d v"
  let ?xs = "m_buffers_shaders s"
  let ?ys = "map (\<lambda>k. if k < m then ?c k (?xs ! k) else ?xs ! k) [0..<length ?xs]"
  have "addDefine_body d v (int m) t = s\<lparr>m_buffers_shaders := ?ys[m := ?c m (?ys ! m)]\<rparr>"
    unfolding t addDefine_body_def by simp
  also have "?ys[m := ?c m (?ys ! m)] = map (\<lambda>k. if k < Suc m then ?c k (?xs ! k) else ?xs ! k) [0..<length ?xs]"
  proof (cases "m < length ?xs")
    case True
    then show ?thesis by (rule pass_update)
  next
    case False
    then have "length ?ys \<le> m" by simp
    then have "?ys[m := ?c m (?ys ! m)] = ?ys" by (rule list_update_beyond)
    also have "?ys = map (\<lambda>k. if k < Suc m then ?c k (?xs ! k) else ?xs ! k) [0..<length ?xs]"
      using False by (rule pass_update_beyond)
    finally show ?thesis .
  qed
  finally show ?thesis .
qed

lemma addDefine_loop:
  "for_loop 0 n (addDefine_body d v) s =
     s\<lparr>m_buffers_shaders :=
         map (\<lambda>k. if int k < n then Shader_addDefine d v (m_buffers_shaders s ! k)
                   else m_buffers_shaders s ! k) [0..<length (m_buffers_shaders s)]\<rparr>"
proof (cases "0 \<le> n")
  case True
  let ?Q = "\<lambda>m. s\<lparr>m_buffers_shaders :=
            map (\<lambda>k. if k < m then Shader_addDefine d v (m_buffers_shaders s ! k)
                      else m_buffers_shaders s ! k) [0..<length (m_buffers_shaders s)]\<rparr>"
  let ?P = "\<lambda>j t. 0 \<le> j \<and> t = ?Q (nat j)"
  have "?P n (for_loop 0 n (addDefine_body d v) s)"
  proof (rule for_loop_invariant [where P = ?P])
    show "?P 0 s" by (simp add: map_nth)
    show "0 \<le> n" by (rule True)
    fix j t
    assume j: "0 \<le> j" "j < n" and t: "?P j t"
    have "addDefine_body d v (int (nat j)) t = ?Q (Suc (nat j))"
      using t by (intro addDefine_body_step) simp
    moreover have "int (nat j) = j" "Suc (nat j) = nat (j + 1)" using j by simp_all
    ultimately show "?P (j + 1) (addDefine_body d v j t)" using j by simp
  qed
  then have "for_loop 0 n (addDefine_body d v) s = ?Q (nat n)" by simp
  moreover have "(\<lambda>k. if k < nat n then Shader_addDefine d v (m_buffers_shaders s ! k)
                      else m_buffers_shaders s ! k)
      = (\<lambda>k. if int k < n then Shader_addDefine d v (m_buffers_shaders s ! k)
                   else m_buffers_shaders s ! k)"
    using True by (intro ext) auto
  ultimately show ?thesis by simp
next
  case False
  have "map (\<lambda>k. if int k < n then Shader_addDefine d v (m_buffers_shaders s ! k)
                   else m_buffers_shaders s ! k) [0..<length (m_buffers_shaders s)] = m_buffers_shaders s"
    using False by (intro nth_equalityI) auto
  with False show ?thesis by (simp add: for_loop_stop)
qed

lemma has_define_addDefine: "has_define d' sh \<Longrightarrow> has_define d' (Shader_addDefine d v sh)"
  by (simp add: has_define_def Shader_addDefine_def dom_update)

lemma has_define_addDefine_same: "has_define d (Shader_addDefine d v sh)"
  by (simp add: has_define_def Shader_addDefine_def dom_update)

lemma has_define_load: "has_define d (Shader_load f v sh) = has_define d sh"
  by (simp add: has_define_def Shader_load_def)

lemma addDefine_shaders:
  "m_buffers_shaders (addDefine d v s) =
     map (\<lambda>k. if int k < m_buffers_total s then Shader_addDefine d v (m_buffers_shaders s ! k)
               else m_buffers_shaders s ! k) [0..<length (m_buffers_shaders s)]"
  by (simp add: addDefine_def Let_def addDefine_loop)

lemma addDefine_fields:
  "uniforms (addDefine d v s) = uniforms s"
  "m_buffers_total (addDefine d v s) = m_buffers_total s"
  "m_frag_source (addDefine d v s) = m_frag_source s"
  "length (m_buffers_shaders (addDefine d v s)) = length (m_buffers_shaders s)"
  by (simp_all add: addDefine_def Let_def addDefine_loop)

lemma addDefine_keeps_define:
  assumes "i < length (m_buffers_shaders s)" "has_define d' (m_buffers_shaders s ! i)"
  shows "has_define d' (m_buffers_shaders (addDefine d v s) ! i)"
  using assms by (simp add: addDefine_shaders has_define_addDefine)

lemma update_uniforms_fields:
  "buffers (uniforms (update_uniforms s)) = buffers (uniforms s)"
  "m_buffers_total (update_uniforms s) = m_buffers_total s"
  "m_frag_source (update_uniforms s) = m_frag_source s"
  "length (m_buffers_shaders (update_uniforms s)) = length (m_buffers_shaders s)"
  by (simp_all add: update_uniforms_def Let_def addDefine_fields checkPresenceIn_def Uniforms_flagChange_def)

lemma update_uniforms_keeps_define:
  assumes "i < length (m_buffers_shaders s)" "has_define d (m_buffers_shaders s ! i)"
  shows "has_define d (m_buffers_shaders (update_uniforms s) ! i)"
  using assms by (simp add: update_uniforms_def Let_def addDefine_keeps_define addDefine_fields)

lemma reload_program_fields:
  "uniforms (reload_program (flagChange s)) = uniforms s"
  "m_buffers_total (reload_program (flagChange s)) = m_buffers_total s"
  "m_frag_source (reload_program (flagChange s)) = m_frag_source s"
  "m_buffers_shaders (reload_program (flagChange s)) = m_buffers_shaders s"
  by (simp_all add: reload_program_def flagChange_def)

lemma update_buffers_total_changed:
  assumes "count_buffers env (m_frag_source s) \<noteq> length (buffers (uniforms s))"
  shows "update_buffers_total env s =
     s\<lparr>m_buffers_total := int (count_buffers env (m_frag_source s)),
       uniforms := (uniforms s)\<lparr>buffers := replicate (count_buffers env (m_frag_source s)) (fresh_buffer env)\<rparr>,
       m_buffers_shaders := map (\<lambda>k. compiled_pass env (m_frag_source s) (int k) Shader_new)
                              [0..<count_buffers env (m_frag_source s)]\<rparr>"
proof -
  let ?s = "s\<lparr>m_buffers_total := int (count_buffers env (m_frag_source s))\<rparr>"
  have "update_buffers_total env s =
      for_loop 0 (m_buffers_total ?s) (allocate_pass env)
        (?s\<lparr>uniforms := (uniforms ?s)\<lparr>buffers := []\<rparr>, m_buffers_shaders := []\<rparr>)"
    using assms by (simp add: update_buffers_total_def updateBuffers_def)
  also have "\<dots> = ?s\<lparr>uniforms := (uniforms ?s)\<lparr>buffers := replicate (nat (m_buffers_total ?s)) (fresh_buffer env)\<rparr>,
       m_buffers_shaders := map (\<lambda>k. compiled_pass env (m_frag_source ?s) (int k) Shader_new) [0..<nat (m_buffers_total ?s)]\<rparr>"
    by (rule allocate_loop) simp
  finally show ?thesis by simp
qed

lemma update_buffers_total_unchanged:
  assumes "count_buffers env (m_frag_source s) = length (buffers (uniforms s))"
  shows "update_buffers_total env s =
     s\<lparr>m_buffers_total := int (count_buffers env (m_frag_source s)),
       m_buffers_shaders := map (\<lambda>k. compiled_pass env (m_frag_source s) (int k) (m_buffers_shaders s ! k))
                              [0..<length (m_buffers_shaders s)]\<rparr>"
proof -
  let ?s = "s\<lparr>m_buffers_total := int (count_buffers env (m_frag_source s))\<rparr>"
  have "update_buffers_total env s =
      for_loop 0 (int (length (m_buffers_shaders ?s))) (reload_pass env) ?s"
    using assms by (simp add: update_buffers_total_def updateBuffers_def)
  also have "\<dots> = ?s\<lparr>m_buffers_shaders :=
         map (\<lambda>k. compiled_pass env (m_frag_source ?s) (int k) (m_buffers_shaders ?s ! k))
           [0..<length (m_buffers_shaders ?s)]\<rparr>"
    by (rule reload_loop)
  finally show ?thesis by simp
qed

lemma update_postprocessing_fields:
  "buffers (uniforms (update_postprocessing env s)) = buffers (uniforms s)"
  "m_buffers_total (update_postprocessing env s) = m_buffers_total s"
  "m_buffers_shaders (update_postprocessing env s) = m_buffers_shaders s"
  by (simp_all add: update_postprocessing_def set_present_def)

lemma update_scene_fbo_fields:
  "buffers (uniforms (update_scene_fbo env s)) = buffers (uniforms s)"
  "m_buffers_total (update_scene_fbo env s) = m_buffers_total s"
  "m_buffers_shaders (update_scene_fbo env s) = m_buffers_shaders s"
  by (simp_all add: update_scene_fbo_def Let_def functions_subscript_def split: option.split)

lemma reloadShaders_buffers:
  "buffers (uniforms (fst (reloadShaders env s fs))) =
     buffers (uniforms (update_buffers_total env (update_uniforms (reload_program (flagChange s)))))"
  "m_buffers_total (fst (reloadShaders env s fs)) =
     m_buffers_total (update_buffers_total env (update_uniforms (reload_program (flagChange s))))"
  "m_buffers_shaders (fst (reloadShaders env s fs)) =
     m_buffers_shaders (update_buffers_total env (update_uniforms (reload_program (flagChange s))))"
  by (simp_all add: reloadShaders_def Let_def update_postprocessing_fields update_scene_fbo_fields)

lemma compiled_pass_props:
  "has_define (''BUFFER_'' @ toString i) (compiled_pass env fragSrc i sh)"
  "fragSource (compiled_pass env fragSrc i sh) = fragSrc"
  "vertSource (compiled_pass env fragSrc i sh) = billboard_vert env"
  "loaded (compiled_pass env fragSrc i sh)"
  "has_define d sh \<Longrightarrow> has_define d (compiled_pass env fragSrc i sh)"
  by (simp_all add: compiled_pass_def has_define_load has_define_addDefine_same has_define_addDefine)
     (simp_all add: Shader_load_def)


text \<open>
  The state after construction has consistent arrays, and the reload, the end of
  \<^verbatim>\<open>setup\<close> and a file-change event keep them so.
\<close>

lemma Sandbox_new_consistent: "buffers_consistent Sandbox_new"
  by (simp add: buffers_consistent_def Sandbox_new_def Uniforms_new_def)

lemma updateBuffers_after_clear:
  assumes "int (length (m_buffers_shaders s)) = m_buffers_total s"
  shows "buffers_consistent (updateBuffers env (s\<lparr>uniforms := (uniforms s)\<lparr>buffers := []\<rparr>\<rparr>))"
proof (cases "m_buffers_total s = 0")
  case True
  with assms have "m_buffers_shaders s = []" by simp
  with True show ?thesis
    by (simp add: updateBuffers_def buffers_consistent_def for_loop_stop)
next
  case False
  let ?s = "s\<lparr>uniforms := (uniforms s)\<lparr>buffers := []\<rparr>\<rparr>"
  have nonneg: "0 \<le> m_buffers_total s" using assms by linarith
  have "updateBuffers env ?s =
      for_loop 0 (m_buffers_total ?s) (allocate_pass env)
        (?s\<lparr>uniforms := (uniforms ?s)\<lparr>buffers := []\<rparr>, m_buffers_shaders := []\<rparr>)"
    using False by (simp add: updateBuffers_def)
  also have "\<dots> = ?s\<lparr>uniforms := (uniforms ?s)\<lparr>buffers := replicate (nat (m_buffers_total ?s)) (fresh_buffer env)\<rparr>,
       m_buffers_shaders := map (\<lambda>k. compiled_pass env (m_frag_source ?s) (int k) Shader_new) [0..<nat (m_buffers_total ?s)]\<rparr>"
    using nonneg by (intro allocate_loop) simp
  finally show ?thesis using nonneg by (simp add: buffers_consistent_def)
qed

lemma update_buffers_total_consistent:
  assumes "length (buffers (uniforms s)) = length (m_buffers_shaders s)"
  shows "buffers_consistent (update_buffers_total env s)"
proof (cases "count_buffers env (m_frag_source s) = length (buffers (uniforms s))")
  case True
  then show ?thesis
    using assms by (simp add: update_buffers_total_unchanged buffers_consistent_def)
next
  case False
  then show ?thesis
    by (simp add: update_buffers_total_changed buffers_consistent_def)
qed

lemma reloadShaders_consistent:
  assumes "buffers_consistent s"
  shows "buffers_consistent (fst (reloadShaders env s fs))"
proof -
  let ?u = "update_uniforms (reload_program (flagChange s))"
  have "length (buffers (uniforms ?u)) = length (m_buffers_shaders ?u)"
    using assms by (simp add: update_uniforms_fields reload_program_fields buffers_consistent_def)
  then have "buffers_consistent (update_buffers_total env ?u)"
    by (rule update_buffers_total_consistent)
  then show ?thesis
    by (simp add: buffers_consistent_def reloadShaders_buffers)
qed

lemma setup_shaders_consistent:
  assumes "buffers_consistent s"
  shows "buffers_consistent (fst (setup_shaders env s fs))"
proof -
  let ?s1 = "fst (reloadShaders env s fs)"
  have "buffers_consistent ?s1" using assms by (rule reloadShaders_consistent)
  then have "int (length (m_buffers_shaders ?s1)) = m_buffers_total ?s1"
    by (simp add: buffers_consistent_def)
  then have "buffers_consistent (updateBuffers env (?s1\<lparr>uniforms := (uniforms ?s1)\<lparr>buffers := []\<rparr>\<rparr>))"
    by (rule updateBuffers_after_clear)
  then show ?thesis
    by (simp add: setup_shaders_def Let_def case_prod_beta buffers_consistent_def flagChange_def)
qed

lemma onFileChange_consistent:
  assumes "buffers_consistent s"
  shows "buffers_consistent (fst (onFileChange env s fs index))"
proof -
  have a: "buffers_consistent (s\<lparr>m_frag_source := a, m_frag_dependencies := b\<rparr>)"
    "buffers_consistent (s\<lparr>m_vert_source := a, m_vert_dependencies := b\<rparr>)" for a b
    using assms by (simp_all add: buffers_consistent_def)
  have f: "buffers_consistent (flagChange t) = buffers_consistent t" for t
    by (simp add: buffers_consistent_def flagChange_def)
  show ?thesis
    using assms a
    by (simp add: onFileChange_def Let_def case_prod_beta f reloadShaders_consistent)
qed

text \<open>
  Claim C1. After \<^verbatim>\<open>reloadShaders\<close> (which ends its buffer step with \<^verbatim>\<open>_updateBuffers\<close>),
  the framebuffer array \<^verbatim>\<open>uniforms.buffers\<close> and the shader array \<^verbatim>\<open>m_buffers_shaders\<close>
  both have the length that \<^verbatim>\<open>count_buffers\<close> gives for the current fragment source, and
  every pass shader \<open>i\<close> carries the define \<^verbatim>\<open>BUFFER_i\<close> and is loaded from the fragment
  source and the billboard vertex stage. If the count differs from the number of
  allocated buffers, both arrays are rebuilt from nothing: fresh framebuffers and fresh
  shaders. If it is the same, the framebuffer array is left as it is and every shader
  is recompiled where it stands, keeping the defines it had. The engine is entered with
  the two arrays of the length that \<^verbatim>\<open>m_buffers_total\<close> records, which it re-establishes.
\<close>

theorem reloadShaders_pass_arrays:
  assumes "buffers_consistent s"
  shows "length (buffers (uniforms (fst (reloadShaders env s fs)))) = count_buffers env (m_frag_source s)
    \<and> length (m_buffers_shaders (fst (reloadShaders env s fs))) = count_buffers env (m_frag_source s)
    \<and> buffers_consistent (fst (reloadShaders env s fs))
    \<and> (\<forall>i<count_buffers env (m_frag_source s).
          has_define (''BUFFER_'' @ toString (int i)) (m_buffers_shaders (fst (reloadShaders env s fs)) ! i)
        \<and> fragSource (m_buffers_shaders (fst (reloadShaders env s fs)) ! i) = m_frag_source s
        \<and> vertSource (m_buffers_shaders (fst (reloadShaders env s fs)) ! i) = billboard_vert env
        \<and> loaded (m_buffers_shaders (fst (reloadShaders env s fs)) ! i))
    \<and> (count_buffers env (m_frag_source s) \<noteq> length (buffers (uniforms s)) \<longrightarrow>
          buffers (uniforms (fst (reloadShaders env s fs)))
            = replicate (count_buffers env (m_frag_source s)) (fresh_buffer env)
        \<and> m_buffers_shaders (fst (reloadShaders env s fs))
            = map (\<lambda>k. compiled_pass env (m_frag_source s) (int k) Shader_new)
                [0..<count_buffers env (m_frag_source s)])
    \<and> (count_buffers env (m_frag_source s) = length (buffers (uniforms s)) \<longrightarrow>
          buffers (uniforms (fst (reloadShaders env s fs))) = buffers (uniforms s)
        \<and> (\<forall>i<count_buffers env (m_frag_source s). \<forall>d.
              has_define d (m_buffers_shaders s ! i) \<longrightarrow>
              has_define d (m_buffers_shaders (fst (reloadShaders env s fs)) ! i)))"
proof -
  let ?u = "update_uniforms (reload_program (flagChange s))"
  let ?n = "count_buffers env (m_frag_source s)"
  have src: "m_frag_source ?u = m_frag_source s"
    by (simp add: update_uniforms_fields reload_program_fields)
  have bufs: "buffers (uniforms ?u) = buffers (uniforms s)"
    by (simp add: update_uniforms_fields reload_program_fields)
  have len: "length (m_buffers_shaders ?u) = length (m_buffers_shaders s)"
    by (simp add: update_uniforms_fields reload_program_fields)
  have same: "length (buffers (uniforms s)) = length (m_buffers_shaders s)"
    using assms by (simp add: buffers_consistent_def)
  show ?thesis
  proof (cases "?n = length (buffers (uniforms s))")
    case True
    have eq: "update_buffers_total env ?u =
       ?u\<lparr>m_buffers_total := int ?n,
          m_buffers_shaders := map (\<lambda>k. compiled_pass env (m_frag_source s) (int k) (m_buffers_shaders ?u ! k))
                              [0..<length (m_buffers_shaders s)]\<rparr>"
      using update_buffers_total_unchanged [of env ?u] True by (simp add: src bufs len)
    have keep: "has_define d (m_buffers_shaders ?u ! i)"
      if "i < ?n" "has_define d (m_buffers_shaders s ! i)" for i d
      using that True same
      by (intro update_uniforms_keeps_define) (simp_all add: reload_program_fields)
    show ?thesis
      using True same
      by (simp add: reloadShaders_buffers eq bufs buffers_consistent_def compiled_pass_props
          compiled_pass_props(1) [simplified] keep)
  next
    case False
    have eq: "update_buffers_total env ?u =
       ?u\<lparr>m_buffers_total := int ?n,
          uniforms := (uniforms ?u)\<lparr>buffers := replicate ?n (fresh_buffer env)\<rparr>,
          m_buffers_shaders := map (\<lambda>k. compiled_pass env (m_frag_source s) (int k) Shader_new) [0..<?n]\<rparr>"
      using update_buffers_total_changed [of env ?u] False by (simp add: src bufs)
    show ?thesis
      using False
      by (simp add: reloadShaders_buffers eq buffers_consistent_def compiled_pass_props
          compiled_pass_props(1) [simplified])
  qed
qed

theorem reloadShaders_pass_arrays_witness:
  "buffers_consistent (Sandbox_new\<lparr>m_frag_source := ''BUFFER_0 BUFFER_1''\<rparr>)
   \<and> length (buffers (uniforms (fst (reloadShaders example_env
         (Sandbox_new\<lparr>m_frag_source := ''BUFFER_0 BUFFER_1''\<rparr>) [])))) = 2
   \<and> length (m_buffers_shaders (fst (reloadShaders example_env
         (Sandbox_new\<lparr>m_frag_source := ''BUFFER_0 BUFFER_1''\<rparr>) []))) = 2"
proof -
  have h: "buffers_consistent (Sandbox_new\<lparr>m_frag_source := ''BUFFER_0 BUFFER_1''\<rparr>)"
    by (simp add: buffers_consistent_def Sandbox_new_def Uniforms_new_def)
  have n: "count_buffers example_env ''BUFFER_0 BUFFER_1'' = 2"
    by (simp add: example_env_def sublist_code)
  show ?thesis
    using h n reloadShaders_pass_arrays [OF h, of example_env "[]"] by simp
qed

section \<open>The watch registry after a reload\<close>

lemma length_erase: "i < length xs \<Longrightarrow> length (erase xs i) = length xs - 1"
  by (simp add: erase_def)

lemma take_erase: "i < length xs \<Longrightarrow> take i (erase xs i) = take i xs"
  by (simp add: erase_def)

lemma drop_erase: "i < length xs \<Longrightarrow> drop i (erase xs i) = drop (Suc i) xs"
  by (simp add: erase_def)

lemma remove_dependencies_take:
  "n \<le> length fs \<Longrightarrow>
   remove_dependencies n fs =
     filter (\<lambda>f. type f \<noteq> GLSL_DEPENDENCY) (take n fs) @ drop n fs"
proof (induction n arbitrary: fs)
  case 0
  then show ?case by simp
next
  case (Suc n)
  then have lt: "n < length fs" by simp
  show ?case
  proof (cases "type (fs ! n) = GLSL_DEPENDENCY")
    case True
    have "n \<le> length (erase fs n)" using lt by (simp add: length_erase)
    then have "remove_dependencies n (erase fs n) =
        filter (\<lambda>f. type f \<noteq> GLSL_DEPENDENCY) (take n (erase fs n)) @ drop n (erase fs n)"
      by (rule Suc.IH)
    with True lt show ?thesis
      by (simp add: take_erase drop_erase take_Suc_conv_app_nth)
  next
    case False
    have "remove_dependencies n fs =
        filter (\<lambda>f. type f \<noteq> GLSL_DEPENDENCY) (take n fs) @ drop n fs"
      using lt by (intro Suc.IH) simp
    with False lt show ?thesis
      by (simp add: take_Suc_conv_app_nth Cons_nth_drop_Suc)
  qed
qed

lemma remove_dependencies_filter:
  "remove_dependencies (length fs) fs = filter (\<lambda>f. type f \<noteq> GLSL_DEPENDENCY) fs"
  by (simp add: remove_dependencies_take)

lemma add_dependencies_append:
  "add_dependencies env ps fs = fs @ map (dependency_entry env) ps"
  by (induction ps arbitrary: fs) (simp_all add: dependency_entry_def)

lemma update_dependencies_eq:
  "update_dependencies env s fs =
     filter (\<lambda>f. type f \<noteq> GLSL_DEPENDENCY) fs
     @ map (dependency_entry env) (merge env (m_frag_dependencies s) (m_vert_dependencies s))"
  by (simp add: update_dependencies_def remove_dependencies_filter add_dependencies_append)

lemma snd_reloadShaders:
  "snd (reloadShaders env s fs) = update_dependencies env (reload_program (flagChange s)) fs"
  by (simp add: reloadShaders_def Let_def)

lemma filter_take_all:
  "\<forall>j<i. P (xs ! j) \<Longrightarrow> i \<le> length xs \<Longrightarrow> filter P (take i xs) = take i xs"
  by (auto simp add: filter_id_conv in_set_conv_nth)

lemma leading_entry_kept:
  assumes "i < length fs" "P (fs ! i)" "\<forall>j<i. P (fs ! j)"
  shows "i < length (filter P fs) \<and> filter P fs ! i = fs ! i"
proof -
  have split: "fs = take i fs @ fs ! i # drop (Suc i) fs"
    using assms(1) by (simp add: id_take_nth_drop)
  have "filter P fs = filter P (take i fs) @ filter P (fs ! i # drop (Suc i) fs)"
    by (subst split) (simp only: filter_append)
  also have "\<dots> = take i fs @ fs ! i # filter P (drop (Suc i) fs)"
    using assms by (simp add: filter_take_all)
  finally have eq: "filter P fs = take i fs @ fs ! i # filter P (drop (Suc i) fs)" .
  have len: "length (take i fs) = i" using assms(1) by simp
  show ?thesis
    using len by (simp add: eq nth_append)
qed

text \<open>After a reload no dependency entry stands before an entry of another kind.\<close>

lemma reloadShaders_dependencies_last:
  assumes "i < length (snd (reloadShaders env s fs))"
    and "type (snd (reloadShaders env s fs) ! i) \<noteq> GLSL_DEPENDENCY"
    and "j < i"
  shows "type (snd (reloadShaders env s fs) ! j) \<noteq> GLSL_DEPENDENCY"
proof -
  let ?keep = "filter (\<lambda>f. type f \<noteq> GLSL_DEPENDENCY) fs"
  let ?new = "map (dependency_entry env)
                (merge env (m_frag_dependencies (reload_program (flagChange s)))
                           (m_vert_dependencies (reload_program (flagChange s))))"
  have eq: "snd (reloadShaders env s fs) = ?keep @ ?new"
    by (simp add: snd_reloadShaders update_dependencies_eq)
  have i: "i < length ?keep"
  proof (rule ccontr)
    assume "\<not> i < length ?keep"
    then have "(?keep @ ?new) ! i = ?new ! (i - length ?keep)" "i - length ?keep < length ?new"
      using assms(1) by (simp_all add: eq nth_append)
    then have "type ((?keep @ ?new) ! i) = GLSL_DEPENDENCY"
      by (simp add: dependency_entry_def)
    with assms(2) show False by (simp add: eq)
  qed
  then have "j < length ?keep" using assms(3) by simp
  then have "?keep ! j \<in> set ?keep" by (rule nth_mem)
  then have "type (?keep ! j) \<noteq> GLSL_DEPENDENCY" by simp
  then show ?thesis using \<open>j < length ?keep\<close> by (simp add: eq nth_append)
qed

text \<open>
  Claim C8, as amended. The dependency step of a reload (erase every entry of kind
  \<^verbatim>\<open>GLSL_DEPENDENCY\<close>, then append one entry per collected path) keeps the entries of
  every other kind, with their paths, in their order; and such an entry keeps its index
  whenever no dependency entry stands before it in the registry. The registries the
  program builds have their dependency entries at the end, since they are only ever
  appended by this step.
\<close>

theorem reloadShaders_keeps_leading_entries:
  "filter (\<lambda>f. type f \<noteq> GLSL_DEPENDENCY) (snd (reloadShaders env s fs))
     = filter (\<lambda>f. type f \<noteq> GLSL_DEPENDENCY) fs
   \<and> (\<forall>i<length fs. type (fs ! i) \<noteq> GLSL_DEPENDENCY \<longrightarrow>
         (\<forall>j<i. type (fs ! j) \<noteq> GLSL_DEPENDENCY) \<longrightarrow>
         i < length (snd (reloadShaders env s fs)) \<and> snd (reloadShaders env s fs) ! i = fs ! i)"
proof (intro conjI allI impI)
  show "filter (\<lambda>f. type f \<noteq> GLSL_DEPENDENCY) (snd (reloadShaders env s fs))
     = filter (\<lambda>f. type f \<noteq> GLSL_DEPENDENCY) fs"
    by (simp add: snd_reloadShaders update_dependencies_eq dependency_entry_def filter_empty_conv)
next
  fix i
  assume a: "i < length fs" "type (fs ! i) \<noteq> GLSL_DEPENDENCY"
    "\<forall>j<i. type (fs ! j) \<noteq> GLSL_DEPENDENCY"
  from leading_entry_kept [where P = "\<lambda>f. type f \<noteq> GLSL_DEPENDENCY", OF a]
  show "i < length (snd (reloadShaders env s fs))"
    by (simp add: snd_reloadShaders update_dependencies_eq)
  from leading_entry_kept [where P = "\<lambda>f. type f \<noteq> GLSL_DEPENDENCY", OF a]
  show "snd (reloadShaders env s fs) ! i = fs ! i"
    by (simp add: snd_reloadShaders update_dependencies_eq nth_append)
qed

text \<open>
  Claim C8 as stated fails on a registry in which a dependency entry stands before a
  primary shader: the shader at index 1 is at index 0 after the reload, and index 1 is
  past the end.
\<close>

theorem reloadShaders_shifts_entry_after_dependency:
  "type ([dep_entry ''inc.glsl'', frag_entry ''shader.frag''] ! 1) = FRAG_SHADER
   \<and> snd (reloadShaders example_env Sandbox_new [dep_entry ''inc.glsl'', frag_entry ''shader.frag''])
       = [frag_entry ''shader.frag'']"
  by (simp add: snd_reloadShaders update_dependencies_eq reload_program_def flagChange_def
      Sandbox_new_def example_env_def dep_entry_def frag_entry_def)

theorem reloadShaders_keeps_leading_entries_witness:
  "snd (reloadShaders example_env Sandbox_new [frag_entry ''shader.frag'', dep_entry ''inc.glsl'']) ! 0
     = frag_entry ''shader.frag''"
  using reloadShaders_keeps_leading_entries
    [of example_env Sandbox_new "[frag_entry ''shader.frag'', dep_entry ''inc.glsl'']"]
  by (simp add: dep_entry_def frag_entry_def)

section \<open>A failed load\<close>

text \<open>
  Claim C2, as amended. When the primary source of a file-change event (after a
  dependency has been re-routed to its shader) cannot be read, \<^verbatim>\<open>onFileChange\<close> does not
  run the reload: the compiled programs (canvas, scene, passes, post-processing), the
  framebuffers, the pass count, the uniforms, the watch registry and the source and
  dependency list of the other stage are the same afterwards as before. The stored
  source and dependency list of the stage that was to be reloaded are not: they were
  emptied before the load and hold what the failed load left of them, and the change
  flag is set.
\<close>

theorem onFileChange_unreadable:
  assumes "reroute s fs index = (ty, filename)"
    and "ty = FRAG_SHADER \<or> ty = VERT_SHADER"
    and "loadFromPath env filename [] [] = (False, src, deps)"
  shows "onFileChange env s fs index =
           ((if ty = FRAG_SHADER
             then s\<lparr>m_frag_source := src, m_frag_dependencies := deps\<rparr>
             else s\<lparr>m_vert_source := src, m_vert_dependencies := deps\<rparr>)\<lparr>m_change := True\<rparr>, fs)
    \<and> m_canvas_shader (fst (onFileChange env s fs index)) = m_canvas_shader s
    \<and> m_scene (fst (onFileChange env s fs index)) = m_scene s
    \<and> m_buffers_shaders (fst (onFileChange env s fs index)) = m_buffers_shaders s
    \<and> m_postprocessing_shader (fst (onFileChange env s fs index)) = m_postprocessing_shader s
    \<and> uniforms (fst (onFileChange env s fs index)) = uniforms s
    \<and> m_scene_fbo (fst (onFileChange env s fs index)) = m_scene_fbo s
    \<and> m_record_fbo (fst (onFileChange env s fs index)) = m_record_fbo s
    \<and> m_buffers_total (fst (onFileChange env s fs index)) = m_buffers_total s
    \<and> m_postprocessing (fst (onFileChange env s fs index)) = m_postprocessing s
    \<and> snd (onFileChange env s fs index) = fs
    \<and> (ty = FRAG_SHADER \<longrightarrow>
          m_vert_source (fst (onFileChange env s fs index)) = m_vert_source s
        \<and> m_vert_dependencies (fst (onFileChange env s fs index)) = m_vert_dependencies s)
    \<and> (ty = VERT_SHADER \<longrightarrow>
          m_frag_source (fst (onFileChange env s fs index)) = m_frag_source s
        \<and> m_frag_dependencies (fst (onFileChange env s fs index)) = m_frag_dependencies s)"
proof -
  have eq: "onFileChange env s fs index =
           ((if ty = FRAG_SHADER
             then s\<lparr>m_frag_source := src, m_frag_dependencies := deps\<rparr>
             else s\<lparr>m_vert_source := src, m_vert_dependencies := deps\<rparr>)\<lparr>m_change := True\<rparr>, fs)"
    using assms by (auto simp: onFileChange_def Let_def flagChange_def)
  show ?thesis
    unfolding eq using assms(2) by auto
qed

text \<open>
  Claim C2 as stated fails: with an unreadable \<^verbatim>\<open>gone.frag\<close>, the stored fragment source
  and its dependency list are empty after the event and were not before.
\<close>

theorem onFileChange_unreadable_empties_source:
  "fst (loadFromPath example_env ''gone.frag'' [] []) = False
   \<and> m_frag_source stale_sandbox = ''void main() {}''
   \<and> m_frag_dependencies stale_sandbox = [''inc.glsl'']
   \<and> m_frag_source (fst (onFileChange example_env stale_sandbox [frag_entry ''gone.frag''] 0)) = []
   \<and> m_frag_dependencies (fst (onFileChange example_env stale_sandbox [frag_entry ''gone.frag''] 0)) = []"
  by (simp add: onFileChange_def reroute_def Let_def flagChange_def example_env_def
      stale_sandbox_def frag_entry_def)

theorem onFileChange_unreadable_witness:
  "m_canvas_shader (fst (onFileChange example_env stale_sandbox [frag_entry ''gone.frag''] 0))
     = m_canvas_shader stale_sandbox
   \<and> snd (onFileChange example_env stale_sandbox [frag_entry ''gone.frag''] 0) = [frag_entry ''gone.frag'']"
proof -
  have r: "reroute stale_sandbox [frag_entry ''gone.frag''] 0 = (FRAG_SHADER, ''gone.frag'')"
    by (simp add: reroute_def Let_def frag_entry_def)
  have l: "loadFromPath example_env ''gone.frag'' [] [] = (False, [], [])"
    by (simp add: example_env_def)
  show ?thesis
    using onFileChange_unreadable [OF r _ l] by simp
qed

section \<open>Presence of the uniform functions after a reload\<close>

lemma update_uniforms_functions:
  "u_functions (uniforms (update_uniforms s)) =
     u_functions (checkPresenceIn (m_vert_source s) (m_frag_source s) (uniforms s))"
  by (simp add: update_uniforms_def Let_def addDefine_fields Uniforms_flagChange_def)

lemma update_buffers_total_functions:
  "u_functions (uniforms (update_buffers_total env s)) = u_functions (uniforms s)"
  by (cases "count_buffers env (m_frag_source s) = length (buffers (uniforms s))")
     (simp_all add: update_buffers_total_changed update_buffers_total_unchanged)

lemma update_buffers_total_keeps:
  "fxaa (update_buffers_total env s) = fxaa s"
  "m_frag_source (update_buffers_total env s) = m_frag_source s"
  "m_vert_source (update_buffers_total env s) = m_vert_source s"
  by (cases "count_buffers env (m_frag_source s) = length (buffers (uniforms s))";
      simp add: update_buffers_total_changed update_buffers_total_unchanged)+

lemma addDefine_keeps:
  "fxaa (addDefine d v s) = fxaa s"
  "m_vert_source (addDefine d v s) = m_vert_source s"
  by (simp_all add: addDefine_def Let_def addDefine_loop)

lemma update_uniforms_keeps:
  "fxaa (update_uniforms s) = fxaa s"
  "m_vert_source (update_uniforms s) = m_vert_source s"
  by (simp_all add: update_uniforms_def Let_def addDefine_keeps)

lemma reload_program_keeps:
  "fxaa (reload_program (flagChange s)) = fxaa s"
  "m_vert_source (reload_program (flagChange s)) = m_vert_source s"
  by (simp_all add: reload_program_def flagChange_def)

lemma update_scene_fbo_functions:
  "u_functions (uniforms s) n = Some f \<Longrightarrow> u_functions (uniforms (update_scene_fbo env s)) n = Some f"
  by (auto simp: update_scene_fbo_def Let_def functions_subscript_def split: option.split)

lemma update_postprocessing_functions:
  assumes "u_functions (uniforms s) n = Some f"
  shows "u_functions (uniforms (update_postprocessing env s)) n =
     Some (if n = ''u_scene'' \<and> fxaa s \<and> \<not> check_for_postprocessing env (m_frag_source s)
           then f\<lparr>present := True\<rparr> else f)"
  using assms by (auto simp: update_postprocessing_def set_present_def functions_at_def)

lemma update_postprocessing_sources:
  "m_vert_source (update_postprocessing env s) = m_vert_source s"
  "m_frag_source (update_postprocessing env s) = m_frag_source s"
  by (simp_all add: update_postprocessing_def)

lemma update_scene_fbo_sources:
  "m_vert_source (update_scene_fbo env s) = m_vert_source s"
  "m_frag_source (update_scene_fbo env s) = m_frag_source s"
  by (simp_all add: update_scene_fbo_def Let_def)

lemma reloadShaders_sources:
  "m_vert_source (fst (reloadShaders env s fs)) = m_vert_source s"
  "m_frag_source (fst (reloadShaders env s fs)) = m_frag_source s"
  by (simp_all add: reloadShaders_def Let_def update_scene_fbo_sources update_postprocessing_sources
      update_buffers_total_keeps update_uniforms_keeps update_uniforms_fields
      reload_program_keeps reload_program_fields)

lemma reloadShaders_functions:
  assumes "u_functions (uniforms s) n = Some f"
  shows "u_functions (uniforms (fst (reloadShaders env s fs))) n =
     Some (f\<lparr>present := (sublist n (m_vert_source s) \<or> sublist n (m_frag_source s))
                        \<or> (n = ''u_scene'' \<and> fxaa s \<and> \<not> check_for_postprocessing env (m_frag_source s))\<rparr>)"
proof -
  let ?s1 = "reload_program (flagChange s)"
  let ?s2 = "update_uniforms ?s1"
  let ?s3 = "update_buffers_total env ?s2"
  let ?g = "f\<lparr>present := (sublist n (m_vert_source s) \<or> sublist n (m_frag_source s))\<rparr>"
  have "u_functions (uniforms ?s2) n = Some ?g"
    using assms
    by (simp add: update_uniforms_functions reload_program_fields reload_program_keeps checkPresenceIn_def)
  then have f3: "u_functions (uniforms ?s3) n = Some ?g"
    by (simp add: update_buffers_total_functions)
  have k: "fxaa ?s3 = fxaa s" "m_frag_source ?s3 = m_frag_source s"
    by (simp_all add: update_buffers_total_keeps update_uniforms_keeps update_uniforms_fields
        reload_program_keeps reload_program_fields)
  have "u_functions (uniforms (update_postprocessing env ?s3)) n =
     Some (if n = ''u_scene'' \<and> fxaa s \<and> \<not> check_for_postprocessing env (m_frag_source s)
           then ?g\<lparr>present := True\<rparr> else ?g)"
    using update_postprocessing_functions [OF f3, of env] by (simp add: k)
  then have "u_functions (uniforms (update_scene_fbo env (update_postprocessing env ?s3))) n =
     Some (if n = ''u_scene'' \<and> fxaa s \<and> \<not> check_for_postprocessing env (m_frag_source s)
           then ?g\<lparr>present := True\<rparr> else ?g)"
    by (rule update_scene_fbo_functions)
  then show ?thesis
    by (auto simp: reloadShaders_def Let_def)
qed

text \<open>
  Claim C4, as amended. After a reload, every uniform function that was registered
  before it is still registered with its type, and its \<^verbatim>\<open>present\<close> flag is true exactly
  when its name occurs as a substring of the current vertex source or of the current
  fragment source, with one exception: when the fragment source has no post-processing
  marker and the FXAA fallback was requested, \<^verbatim>\<open>u_scene\<close> is present whether its name
  occurs or not.
\<close>

theorem reloadShaders_presence:
  "\<forall>n f. u_functions (uniforms s) n = Some f \<longrightarrow>
     (\<exists>g. u_functions (uniforms (fst (reloadShaders env s fs))) n = Some g
        \<and> uf_type g = uf_type f
        \<and> (present g \<longleftrightarrow>
             sublist n (m_vert_source (fst (reloadShaders env s fs)))
           \<or> sublist n (m_frag_source (fst (reloadShaders env s fs)))
           \<or> (n = ''u_scene'' \<and> fxaa s \<and> \<not> check_for_postprocessing env (m_frag_source s))))"
proof (intro allI impI)
  fix n f
  assume "u_functions (uniforms s) n = Some f"
  then have "u_functions (uniforms (fst (reloadShaders env s fs))) n =
     Some (f\<lparr>present := (sublist n (m_vert_source s) \<or> sublist n (m_frag_source s))
                        \<or> (n = ''u_scene'' \<and> fxaa s \<and> \<not> check_for_postprocessing env (m_frag_source s))\<rparr>)"
    by (rule reloadShaders_functions)
  then show "\<exists>g. u_functions (uniforms (fst (reloadShaders env s fs))) n = Some g
        \<and> uf_type g = uf_type f
        \<and> (present g \<longleftrightarrow>
             sublist n (m_vert_source (fst (reloadShaders env s fs)))
           \<or> sublist n (m_frag_source (fst (reloadShaders env s fs)))
           \<or> (n = ''u_scene'' \<and> fxaa s \<and> \<not> check_for_postprocessing env (m_frag_source s)))"
    by (simp add: reloadShaders_sources)
qed

text \<open>
  Claim C4 as stated fails: with the FXAA fallback and a source that mentions neither
  a post-processing marker nor \<^verbatim>\<open>u_scene\<close>, \<^verbatim>\<open>u_scene\<close> is present after the reload.
\<close>

theorem reloadShaders_fxaa_forces_u_scene:
  "\<not> sublist ''u_scene'' (m_vert_source (fst (reloadShaders example_env fxaa_sandbox [])))
   \<and> \<not> sublist ''u_scene'' (m_frag_source (fst (reloadShaders example_env fxaa_sandbox [])))
   \<and> map_option present (u_functions (uniforms (fst (reloadShaders example_env fxaa_sandbox []))) ''u_scene'')
       = Some True"
proof -
  have r: "u_functions (uniforms fxaa_sandbox) ''u_scene'' = Some \<lparr>uf_type = ''sampler2D'', present = False\<rparr>"
    by (simp add: fxaa_sandbox_def Sandbox_new_def Uniforms_new_def builtin_functions_def)
  have "\<not> sublist ''POSTPROCESSING'' ''void main() {}''" by code_simp
  then have c: "\<not> check_for_postprocessing example_env ''void main() {}''"
    by (simp add: example_env_def)
  have n: "\<not> sublist ''u_scene'' ''void main() {}''" "\<not> sublist ''u_scene'' []" by code_simp+
  have v: "m_vert_source fxaa_sandbox = []" "m_frag_source fxaa_sandbox = ''void main() {}''" "fxaa fxaa_sandbox"
    by (simp_all add: fxaa_sandbox_def Sandbox_new_def)
  show ?thesis
    using c n by (simp add: reloadShaders_functions [OF r] reloadShaders_sources v)
qed

theorem reloadShaders_presence_witness:
  "map_option present (u_functions (uniforms (fst (reloadShaders example_env
       (Sandbox_new\<lparr>m_frag_source := ''uniform float u_time;''\<rparr>) []))) ''u_time'') = Some True
   \<and> map_option present (u_functions (uniforms (fst (reloadShaders example_env
       (Sandbox_new\<lparr>m_frag_source := ''uniform float u_time;''\<rparr>) []))) ''u_mouse'') = Some False"
proof -
  let ?s = "Sandbox_new\<lparr>m_frag_source := ''uniform float u_time;''\<rparr>"
  have r: "u_functions (uniforms ?s) ''u_time'' = Some \<lparr>uf_type = ''float'', present = False\<rparr>"
    "u_functions (uniforms ?s) ''u_mouse'' = Some \<lparr>uf_type = ''vec2'', present = False\<rparr>"
    by (simp_all add: Sandbox_new_def Uniforms_new_def builtin_functions_def)
  have v: "m_vert_source (fst (reloadShaders example_env ?s [])) = []"
    "m_frag_source (fst (reloadShaders example_env ?s [])) = ''uniform float u_time;''"
    by (simp_all add: reloadShaders_sources Sandbox_new_def)
  have o: "sublist ''u_time'' ''uniform float u_time;''" "\<not> sublist ''u_mouse'' ''uniform float u_time;''"
    "\<not> sublist ''u_time'' []"  "\<not> sublist ''u_mouse'' []"
    by code_simp+
  from reloadShaders_presence [rule_format, OF r(1), of example_env "[]"]
  obtain g where
    g: "u_functions (uniforms (fst (reloadShaders example_env ?s []))) ''u_time'' = Some g"
       "present g \<longleftrightarrow> sublist ''u_time'' (m_vert_source (fst (reloadShaders example_env ?s [])))
           \<or> sublist ''u_time'' (m_frag_source (fst (reloadShaders example_env ?s [])))
           \<or> (''u_time'' = ''u_scene'' \<and> fxaa ?s \<and> \<not> check_for_postprocessing example_env (m_frag_source ?s))"
    by (elim exE conjE)
  from reloadShaders_presence [rule_format, OF r(2), of example_env "[]"]
  obtain h where
    h: "u_functions (uniforms (fst (reloadShaders example_env ?s []))) ''u_mouse'' = Some h"
       "present h \<longleftrightarrow> sublist ''u_mouse'' (m_vert_source (fst (reloadShaders example_env ?s [])))
           \<or> sublist ''u_mouse'' (m_frag_source (fst (reloadShaders example_env ?s [])))
           \<or> (''u_mouse'' = ''u_scene'' \<and> fxaa ?s \<and> \<not> check_for_postprocessing example_env (m_frag_source ?s))"
    by (elim exE conjE)
  have pg: "present g" using g(2) o by (simp only: v) simp
  have ph: "\<not> present h" using h(2) o by (simp only: v) simp
  show ?thesis
    using g(1) h(1) pg ph by simp
qed

section \<open>Skipping a frame\<close>

lemma render_frame: "m_frame (render env s) = m_frame s"
  by (simp add: render_def Let_def)

lemma onScreenshot_fields:
  "m_frame (onScreenshot isGL file s) = m_frame s"
  "m_record (onScreenshot isGL file s) = m_record s"
  "screenshotFile (onScreenshot isGL file s) = screenshotFile s"
  "m_record_head (onScreenshot isGL file s) = m_record_head s"
  "m_record_end (onScreenshot isGL file s) = m_record_end s"
  "m_record_fdelta (onScreenshot isGL file s) = m_record_fdelta s"
  by (simp_all add: onScreenshot_def)

lemma renderDone_frame: "m_frame (renderDone isGL s) = m_frame s + 1"
  by (simp add: renderDone_def Let_def unflagChange_def flagChange_def onScreenshot_fields)

lemma draw_frame_frame: "m_frame (sandbox (draw_frame env isGL w)) = m_frame (sandbox w) + 1"
  by (simp add: draw_frame_def Let_def renderDone_frame renderUI_def render_frame)

text \<open>
  Claim C7. \<^verbatim>\<open>haveChange\<close> is the disjunction of the five components: the explicit flag,
  an active recording, a non-empty screenshot path, the scene's flag and the uniforms'
  flag. One pass of the render loop, after the time limit and a pending file change
  have been dealt with, skips the frame (returns without rendering, so that the frame
  counter stands still) exactly when that predicate is false and neither \<^verbatim>\<open>fullFps\<close>
  nor \<^verbatim>\<open>timeOut\<close> is set; otherwise it draws the frame.
\<close>

theorem skip_frame_iff:
  "(haveChange s \<longleftrightarrow>
      m_change s \<or> m_record s \<or> screenshotFile s \<noteq> [] \<or> scene_change (m_scene s) \<or> change (uniforms s))
   \<and> main_iteration env expired isGL w =
       (if \<not> timeOut (consume env (time_limit expired w))
           \<and> \<not> fullFps (consume env (time_limit expired w))
           \<and> \<not> haveChange (sandbox (consume env (time_limit expired w)))
        then consume env (time_limit expired w)
        else draw_frame env isGL (consume env (time_limit expired w)))
   \<and> (m_frame (sandbox (main_iteration env expired isGL w))
        = m_frame (sandbox (consume env (time_limit expired w)))
      \<longleftrightarrow> \<not> haveChange (sandbox (consume env (time_limit expired w)))
          \<and> \<not> fullFps (consume env (time_limit expired w))
          \<and> \<not> timeOut (consume env (time_limit expired w)))"
  by (auto simp: haveChange_def main_iteration_def Let_def skip_frame_def draw_frame_frame)

theorem skip_frame_iff_witness:
  "main_iteration example_env False True idle_world = idle_world
   \<and> m_frame (sandbox (main_iteration example_env False True (idle_world\<lparr>fullFps := True\<rparr>))) = 1"
proof -
  have c: "consume example_env (time_limit False idle_world) = idle_world"
    "consume example_env (time_limit False (idle_world\<lparr>fullFps := True\<rparr>)) = idle_world\<lparr>fullFps := True\<rparr>"
    by (simp_all add: consume_def time_limit_def idle_world_def)
  have h: "\<not> haveChange (sandbox idle_world)" "\<not> timeOut idle_world" "\<not> fullFps idle_world"
    "m_frame (sandbox idle_world) = 0"
    by (simp_all add: haveChange_def idle_world_def Sandbox_new_def Uniforms_new_def)
  show ?thesis
    using skip_frame_iff [of "sandbox idle_world" example_env False True idle_world]
      skip_frame_iff [of "sandbox idle_world" example_env False True "idle_world\<lparr>fullFps := True\<rparr>"]
    by (simp add: c h draw_frame_frame)
qed

section \<open>The dispatcher\<close>

lemma runCmd_loop_dispatch:
  "i \<le> length commands \<Longrightarrow> runCmd_loop commands cmd i False w = dispatch (drop i commands) cmd w"
proof (induction "length commands - i" arbitrary: i w)
  case 0
  then show ?case by (simp add: runCmd_loop.simps)
next
  case (Suc k)
  then have lt: "i < length commands" by simp
  have d: "drop i commands = commands ! i # drop (i + 1) commands"
    using lt by (simp add: Cons_nth_drop_Suc)
  have ih: "runCmd_loop commands cmd (i + 1) False w' = dispatch (drop (i + 1) commands) cmd w'" for w'
    using Suc.hyps(1) [of "i + 1" w'] Suc.hyps(2) lt by simp
  show ?case
    apply (subst runCmd_loop.simps)
    apply (subst d)
    using lt ih
    by (auto simp: beginsWith_def split: prod.splits)
qed

lemma runCmd_dispatch:
  "runCmd commands cmd w =
     (case dispatch commands cmd w of
        (True, w1) \<Rightarrow> w1
      | (False, w1) \<Rightarrow> w1\<lparr>sandbox := (sandbox w1)\<lparr>uniforms := parseLine cmd (uniforms (sandbox w1))\<rparr>\<rparr>)"
  using runCmd_loop_dispatch [of 0 commands cmd w]
  by (auto simp: runCmd_def split: prod.splits)

lemma dispatch_filter:
  "dispatch commands line w = dispatch (filter (\<lambda>c. prefix (begins_with c) line) commands) line w"
  by (induction commands arbitrary: w) (auto split: prod.splits)

lemma dispatch_no_match:
  "\<forall>c \<in> set commands. \<not> prefix (begins_with c) line \<Longrightarrow> dispatch commands line w = (False, w)"
  by (induction commands arbitrary: w) auto

lemma matching_commands:
  "map begins_with (filter (\<lambda>c. prefix (begins_with c) line) commands)
     = filter (\<lambda>t. prefix t line) (map begins_with commands)"
  by (simp add: filter_map comp_def)

lemma dispatch_one_match:
  assumes "filter (\<lambda>t. prefix t line) (map begins_with commands) = [t]"
  shows "\<exists>c \<in> set commands. begins_with c = t \<and> dispatch commands line w = exec c line w"
proof -
  let ?cs = "filter (\<lambda>c. prefix (begins_with c) line) commands"
  have "map begins_with ?cs = [t]" using assms by (simp add: matching_commands)
  then obtain c where c: "?cs = [c]" "begins_with c = t" by auto
  then have "c \<in> set ?cs" by simp
  then have m: "c \<in> set commands" "prefix (begins_with c) line" by simp_all
  have "dispatch commands line w = dispatch [c] line w"
    by (subst dispatch_filter) (simp add: c)
  also have "\<dots> = exec c line w" using m(2) by (auto split: prod.splits)
  finally show ?thesis using m(1) c(2) by blast
qed

lemma dispatch_two_matches:
  assumes "filter (\<lambda>t. prefix t line) (map begins_with commands) = [t, u]"
  shows "\<exists>c \<in> set commands. \<exists>d \<in> set commands. begins_with c = t \<and> begins_with d = u \<and>
     dispatch commands line w =
       (if fst (exec c line w) then exec c line w else exec d line (snd (exec c line w)))"
proof -
  let ?cs = "filter (\<lambda>c. prefix (begins_with c) line) commands"
  have "map begins_with ?cs = [t, u]" using assms by (simp add: matching_commands)
  then obtain c d where c: "?cs = [c, d]" "begins_with c = t" "begins_with d = u" by auto
  then have "c \<in> set ?cs" "d \<in> set ?cs" by simp_all
  then have m: "c \<in> set commands" "prefix (begins_with c) line"
    "d \<in> set commands" "prefix (begins_with d) line" by simp_all
  have "dispatch commands line w = dispatch [c, d] line w"
    by (subst dispatch_filter) (simp add: c)
  also have "\<dots> = (if fst (exec c line w) then exec c line w else exec d line (snd (exec c line w)))"
    using m(2,4) by (auto split: prod.splits)
  finally show ?thesis using m(1,3) c(2,3) by blast
qed

lemma registered_example: "registered example_commands"
  by (auto simp: registered_def example_commands_def handler_of_def comp_def)

lemma matching_tokens:
  "filter (\<lambda>t. prefix t ''u_myColor,1,0,0'') declared_tokens = []"
  "filter (\<lambda>t. prefix t ''screenshot'') declared_tokens = [''screenshot'']"
  "filter (\<lambda>t. prefix t ''reload'') declared_tokens = [''reload'']"
  "filter (\<lambda>t. prefix t ''reload,all'') declared_tokens = [''reload'']"
  "filter (\<lambda>t. prefix t ''q'') declared_tokens = [''q'']"
  "filter (\<lambda>t. prefix t ''quit'') declared_tokens = [''q'', ''quit'']"
  by (simp_all add: declared_tokens_def)

lemma parseLine_myColor:
  "data (parseLine ''u_myColor,1,0,0'' u) ''u_myColor''
     = Some \<lparr>ud_size = 3, ud_value = [1, 0, 0], ud_change = True\<rparr>"
  by (simp add: parseLine_def split_def toFloat_def is_digit_def Let_def)

text \<open>
  Claim C5. \<^verbatim>\<open>runCmd\<close> does what the dispatch of the spec does: it goes through the
  commands in registration order, invokes each handler whose token is a prefix of the
  line and stops at the first one that returns true; if none does, the line goes to the
  line parser of the uniforms. No declared token is a prefix of \<^verbatim>\<open>u_myColor,1,0,0\<close>, so
  on a registry none of whose tokens is one, the line is parsed and leaves the entry
  \<^verbatim>\<open>u_myColor\<close> with arity 3 and the values 1, 0, 0.
\<close>

theorem runCmd_first_handled_or_parse:
  "runCmd commands line w =
     (case dispatch commands line w of
        (True, w1) \<Rightarrow> w1
      | (False, w1) \<Rightarrow> w1\<lparr>sandbox := (sandbox w1)\<lparr>uniforms := parseLine line (uniforms (sandbox w1))\<rparr>\<rparr>)
   \<and> ((\<forall>c \<in> set commands. \<not> prefix (begins_with c) ''u_myColor,1,0,0'') \<longrightarrow>
        runCmd commands ''u_myColor,1,0,0'' w =
          w\<lparr>sandbox := (sandbox w)\<lparr>uniforms := parseLine ''u_myColor,1,0,0'' (uniforms (sandbox w))\<rparr>\<rparr>
      \<and> data (uniforms (sandbox (runCmd commands ''u_myColor,1,0,0'' w))) ''u_myColor''
          = Some \<lparr>ud_size = 3, ud_value = [1, 0, 0], ud_change = True\<rparr>)
   \<and> (\<forall>t \<in> set declared_tokens. \<not> prefix t ''u_myColor,1,0,0'')"
proof (intro conjI impI)
  show "runCmd commands line w =
     (case dispatch commands line w of
        (True, w1) \<Rightarrow> w1
      | (False, w1) \<Rightarrow> w1\<lparr>sandbox := (sandbox w1)\<lparr>uniforms := parseLine line (uniforms (sandbox w1))\<rparr>\<rparr>)"
    by (rule runCmd_dispatch)
next
  assume "\<forall>c \<in> set commands. \<not> prefix (begins_with c) ''u_myColor,1,0,0''"
  then have "dispatch commands ''u_myColor,1,0,0'' w = (False, w)"
    by (rule dispatch_no_match)
  then show r: "runCmd commands ''u_myColor,1,0,0'' w =
          w\<lparr>sandbox := (sandbox w)\<lparr>uniforms := parseLine ''u_myColor,1,0,0'' (uniforms (sandbox w))\<rparr>\<rparr>"
    by (simp add: runCmd_dispatch)
  show "data (uniforms (sandbox (runCmd commands ''u_myColor,1,0,0'' w))) ''u_myColor''
          = Some \<lparr>ud_size = 3, ud_value = [1, 0, 0], ud_change = True\<rparr>"
    unfolding r by (simp add: parseLine_myColor)
next
  have "filter (\<lambda>t. prefix t ''u_myColor,1,0,0'') declared_tokens = []"
    by (rule matching_tokens)
  then show "\<forall>t \<in> set declared_tokens. \<not> prefix t ''u_myColor,1,0,0''"
    by (simp add: filter_empty_conv)
qed

theorem runCmd_first_handled_or_parse_witness:
  "data (uniforms (sandbox (runCmd example_commands ''u_myColor,1,0,0'' idle_world))) ''u_myColor''
     = Some \<lparr>ud_size = 3, ud_value = [1, 0, 0], ud_change = True\<rparr>"
proof -
  have "\<forall>t \<in> set (map begins_with example_commands). \<not> prefix t ''u_myColor,1,0,0''"
    using runCmd_first_handled_or_parse [of example_commands "[]" idle_world] registered_example
    by (simp only: registered_def) simp
  then have "\<forall>c \<in> set example_commands. \<not> prefix (begins_with c) ''u_myColor,1,0,0''"
    by simp
  with runCmd_first_handled_or_parse [of example_commands "[]" idle_world]
  show ?thesis by blast
qed

lemma parseLine_screenshot: "parseLine ''screenshot'' u = u"
  by (simp add: parseLine_def split_def)

lemma cmd_screenshot_bare:
  "cmd_screenshot ''screenshot'' w =
     (if outputFile w \<noteq> [] then (True, w\<lparr>sandbox := (sandbox w)\<lparr>screenshotFile := outputFile w\<rparr>\<rparr>)
      else (False, w))"
  by (simp add: cmd_screenshot_def split_def)

text \<open>
  Claim C10. On a registry with the declared tokens, the bare line \<^verbatim>\<open>screenshot\<close> is
  handled exactly when \<^verbatim>\<open>outputFile\<close> is not empty, and then stores it as the pending
  screenshot path. When \<^verbatim>\<open>outputFile\<close> is empty the handler returns false and changes
  nothing, no other command matches, and the line goes to the line parser of the
  uniforms, which ignores a line of one token: the state is as before.
\<close>

theorem screenshot_without_output_file:
  assumes "registered commands"
  shows "(fst (dispatch commands ''screenshot'' w) \<longleftrightarrow> outputFile w \<noteq> [])
    \<and> (outputFile w \<noteq> [] \<longrightarrow>
          runCmd commands ''screenshot'' w = w\<lparr>sandbox := (sandbox w)\<lparr>screenshotFile := outputFile w\<rparr>\<rparr>)
    \<and> (outputFile w = [] \<longrightarrow>
          cmd_screenshot ''screenshot'' w = (False, w)
        \<and> dispatch commands ''screenshot'' w = (False, w)
        \<and> runCmd commands ''screenshot'' w =
            w\<lparr>sandbox := (sandbox w)\<lparr>uniforms := parseLine ''screenshot'' (uniforms (sandbox w))\<rparr>\<rparr>
        \<and> runCmd commands ''screenshot'' w = w)"
proof -
  have "filter (\<lambda>t. prefix t ''screenshot'') (map begins_with commands) = [''screenshot'']"
    using assms by (simp add: registered_def matching_tokens)
  then obtain c where c: "c \<in> set commands" "begins_with c = ''screenshot''"
    "dispatch commands ''screenshot'' w = exec c ''screenshot'' w"
    using dispatch_one_match by blast
  then have "exec c = cmd_screenshot" using assms by (simp add: registered_def)
  then have d: "dispatch commands ''screenshot'' w = cmd_screenshot ''screenshot'' w"
    using c(3) by simp
  show ?thesis
    by (simp add: runCmd_dispatch d cmd_screenshot_bare parseLine_screenshot)
qed

theorem screenshot_without_output_file_witness:
  "registered example_commands \<and> outputFile idle_world = []
   \<and> runCmd example_commands ''screenshot'' idle_world = idle_world
   \<and> screenshotFile (sandbox (runCmd example_commands ''screenshot'' (idle_world\<lparr>outputFile := ''out.png''\<rparr>)))
       = ''out.png''"
proof -
  have o: "outputFile idle_world = []" "outputFile (idle_world\<lparr>outputFile := ''out.png''\<rparr>) \<noteq> []"
    by (simp_all add: idle_world_def)
  have a: "runCmd example_commands ''screenshot'' idle_world = idle_world"
    using screenshot_without_output_file [OF registered_example, of idle_world] o(1) by blast
  have b: "runCmd example_commands ''screenshot'' (idle_world\<lparr>outputFile := ''out.png''\<rparr>)
      = idle_world\<lparr>outputFile := ''out.png''\<rparr>
          \<lparr>sandbox := (sandbox (idle_world\<lparr>outputFile := ''out.png''\<rparr>))
             \<lparr>screenshotFile := outputFile (idle_world\<lparr>outputFile := ''out.png''\<rparr>)\<rparr>\<rparr>"
    using screenshot_without_output_file [OF registered_example, of "idle_world\<lparr>outputFile := ''out.png''\<rparr>"]
      o(2) by blast
  show ?thesis
    unfolding a b using registered_example o(1) by simp
qed

section \<open>The reload command\<close>

lemma reload_all_loop_eq:
  "reload_all_loop i w published =
     ((if i < length (files w) then w\<lparr>fileChanged := int (length (files w)) - 1\<rparr> else w),
      published @ map (\<lambda>k. w\<lparr>fileChanged := int k\<rparr>) [i..<length (files w)])"
proof (induction i w published rule: reload_all_loop.induct)
  case (1 i w published)
  show ?case
  proof (cases "i < length (files w)")
    case False
    then show ?thesis by (simp add: reload_all_loop.simps)
  next
    case True
    let ?w1 = "w\<lparr>fileChanged := int i\<rparr>"
    have ih: "reload_all_loop (i + 1) ?w1 (published @ [?w1]) =
       ((if i + 1 < length (files ?w1) then ?w1\<lparr>fileChanged := int (length (files ?w1)) - 1\<rparr> else ?w1),
        (published @ [?w1]) @ map (\<lambda>k. ?w1\<lparr>fileChanged := int k\<rparr>) [i + 1..<length (files ?w1)])"
      using "1.IH" [OF True refl] .
    have "reload_all_loop i w published = reload_all_loop (i + 1) ?w1 (published @ [?w1])"
      using True by (subst reload_all_loop.simps) (simp add: Let_def)
    also have "\<dots> =
       ((if i + 1 < length (files ?w1) then ?w1\<lparr>fileChanged := int (length (files ?w1)) - 1\<rparr> else ?w1),
        (published @ [?w1]) @ map (\<lambda>k. ?w1\<lparr>fileChanged := int k\<rparr>) [i + 1..<length (files ?w1)])"
      by (rule ih)
    also have "\<dots> =
       ((if i < length (files w) then w\<lparr>fileChanged := int (length (files w)) - 1\<rparr> else w),
        published @ map (\<lambda>k. w\<lparr>fileChanged := int k\<rparr>) [i..<length (files w)])"
    proof (cases "i + 1 < length (files w)")
      case True
      then show ?thesis using \<open>i < length (files w)\<close> by (simp add: upt_conv_Cons)
    next
      case False
      then have "int i = int (length (files w)) - 1" using \<open>i < length (files w)\<close> by linarith
      then show ?thesis using False \<open>i < length (files w)\<close> by (simp add: upt_conv_Cons)
    qed
    finally show ?thesis .
  qed
qed

lemma reload_all_eq:
  "reload_all w =
     ((if 0 < length (files w) then w\<lparr>fileChanged := int (length (files w)) - 1\<rparr> else w)\<lparr>fullFps := False\<rparr>,
      map (\<lambda>k. w\<lparr>fullFps := True, fileChanged := int k\<rparr>) [0..<length (files w)])"
  by (simp add: reload_all_def reload_all_loop_eq)

text \<open>
  Claim C9. The handler of \<^verbatim>\<open>reload\<close>, given \<^verbatim>\<open>reload\<close> or \<^verbatim>\<open>reload,all\<close>, resolves the
  line; it sets \<^verbatim>\<open>fullFps\<close>, publishes every index of the registry in turn with
  \<^verbatim>\<open>fullFps\<close> true at each of them, and then stores false: whatever the flag was
  before, it is false after the command, also when the command comes through the
  dispatcher.
\<close>

theorem reload_leaves_fullFps_false:
  assumes "line = ''reload'' \<or> line = ''reload,all''"
  shows "fst (cmd_reload line w)
    \<and> snd (cmd_reload line w) = fst (reload_all w)
    \<and> \<not> fullFps (snd (cmd_reload line w))
    \<and> snd (reload_all w) = map (\<lambda>k. w\<lparr>fullFps := True, fileChanged := int k\<rparr>) [0..<length (files w)]
    \<and> (\<forall>p \<in> set (snd (reload_all w)). fullFps p)
    \<and> (registered commands \<longrightarrow>
          runCmd commands line w = snd (cmd_reload line w) \<and> \<not> fullFps (runCmd commands line w))"
proof -
  have h: "cmd_reload line w = (True, fst (reload_all w))"
    using assms by (auto simp: cmd_reload_def)
  have f: "\<not> fullFps (fst (reload_all w))"
    by (simp add: reload_all_eq)
  have r: "runCmd commands line w = fst (reload_all w)" if reg: "registered commands"
  proof -
    have "filter (\<lambda>t. prefix t line) (map begins_with commands) = [''reload'']"
      using reg assms by (auto simp: registered_def matching_tokens)
    then obtain c where c: "c \<in> set commands" "begins_with c = ''reload''"
      "dispatch commands line w = exec c line w"
      using dispatch_one_match by blast
    then have "exec c = cmd_reload" using reg by (simp add: registered_def)
    then show ?thesis using c(3) h by (simp add: runCmd_dispatch)
  qed
  show ?thesis
    using r f by (auto simp: h reload_all_eq)
qed

theorem reload_leaves_fullFps_false_witness:
  "fullFps (idle_world\<lparr>fullFps := True\<rparr>)
   \<and> \<not> fullFps (runCmd example_commands ''reload'' (idle_world\<lparr>fullFps := True\<rparr>))
   \<and> \<not> fullFps (runCmd example_commands ''reload,all'' (idle_world\<lparr>fullFps := True\<rparr>))"
proof -
  have a: "\<not> fullFps (runCmd example_commands ''reload'' (idle_world\<lparr>fullFps := True\<rparr>))"
    using reload_leaves_fullFps_false [of "''reload''" "idle_world\<lparr>fullFps := True\<rparr>" example_commands]
      registered_example by blast
  have b: "\<not> fullFps (runCmd example_commands ''reload,all'' (idle_world\<lparr>fullFps := True\<rparr>))"
    using reload_leaves_fullFps_false [of "''reload,all''" "idle_world\<lparr>fullFps := True\<rparr>" example_commands]
      registered_example by blast
  show ?thesis using a b by simp
qed

section \<open>Quitting\<close>

lemma render_fields:
  "screenshotFile (render env s) = screenshotFile s"
  "m_record (render env s) = m_record s"
  "saved (render env s) = saved s"
  "m_record_head (render env s) = m_record_head s"
  "m_record_end (render env s) = m_record_end s"
  "m_record_fdelta (render env s) = m_record_fdelta s"
  "m_record_counter (render env s) = m_record_counter s"
  by (simp_all add: render_def Let_def)

lemma renderDone_screenshotFile:
  "screenshotFile (renderDone isGL s) = (if m_record s then screenshotFile s else [])"
  by (simp add: renderDone_def Let_def unflagChange_def flagChange_def onScreenshot_def)

lemma renderDone_saved:
  "saved (renderDone isGL s) =
     (if m_record s then (if isGL then saved s @ [record_filename (m_record_counter s)] else saved s)
      else if screenshotFile s \<noteq> [] \<and> isGL then saved s @ [screenshotFile s] else saved s)"
  by (simp add: renderDone_def Let_def unflagChange_def flagChange_def onScreenshot_def record_filename_def)

lemma renderDone_record:
  "m_record (renderDone isGL s) \<longleftrightarrow> m_record s \<and> m_record_head s + m_record_fdelta s < m_record_end s"
  "m_record_head (renderDone isGL s) = (if m_record s then m_record_head s + m_record_fdelta s else m_record_head s)"
  "m_record_end (renderDone isGL s) = m_record_end s"
  by (auto simp: renderDone_def Let_def unflagChange_def flagChange_def onScreenshot_def)

lemma time_limit_timeOut: "timeOut v \<Longrightarrow> timeOut (time_limit expired v)"
  by (simp add: time_limit_def)

lemma consume_timeOut: "timeOut (consume env v) = timeOut v"
  by (simp add: consume_def Let_def split: prod.splits)

lemma runCmd_q:
  assumes "registered commands"
  shows "runCmd commands ''q'' w = w\<lparr>bRun := False\<rparr>"
proof -
  have "filter (\<lambda>t. prefix t ''q'') (map begins_with commands) = [''q'']"
    using assms by (simp add: registered_def matching_tokens)
  then obtain c where c: "c \<in> set commands" "begins_with c = ''q''"
    "dispatch commands ''q'' w = exec c ''q'' w"
    using dispatch_one_match by blast
  then have "exec c = cmd_q" using assms by (simp add: registered_def)
  then show ?thesis using c(3) by (simp add: runCmd_dispatch cmd_q_def)
qed

lemma runCmd_quit:
  assumes "registered commands"
  shows "runCmd commands ''quit'' w = w\<lparr>timeOut := True\<rparr>"
proof -
  have "filter (\<lambda>t. prefix t ''quit'') (map begins_with commands) = [''q'', ''quit'']"
    using assms by (simp add: registered_def matching_tokens)
  then obtain c d where c: "c \<in> set commands" "d \<in> set commands"
    "begins_with c = ''q''" "begins_with d = ''quit''"
    "dispatch commands ''quit'' w =
       (if fst (exec c ''quit'' w) then exec c ''quit'' w else exec d ''quit'' (snd (exec c ''quit'' w)))"
    using dispatch_two_matches [of "''quit''" commands "''q''" "''quit''" w] by blast
  then have "exec c = cmd_q" "exec d = cmd_quit" using assms by (simp_all add: registered_def)
  then show ?thesis using c(5) by (simp add: runCmd_dispatch cmd_q_def cmd_quit_def)
qed

text \<open>
  Claim C6, as amended. On a registry with the declared tokens, the line \<^verbatim>\<open>q\<close> clears
  \<^verbatim>\<open>bRun\<close>, so that the guard of the render loop fails and no further frame is drawn.
  The line \<^verbatim>\<open>quit\<close> leaves \<^verbatim>\<open>bRun\<close> as it is and sets \<^verbatim>\<open>timeOut\<close>. From then on no pass
  of the loop skips its frame, and a pass clears \<^verbatim>\<open>bRun\<close> at its end unless a
  recording is active while a screenshot is pending. A pending screenshot with no
  recording active is saved in that pass before \<^verbatim>\<open>bRun\<close> is cleared. An active
  recording is not waited for.
\<close>

theorem quit_waits_for_screenshot_only:
  assumes "registered commands"
  shows "runCmd commands ''q'' w = w\<lparr>bRun := False\<rparr>
    \<and> \<not> loop_guard isGL (runCmd commands ''q'' w)
    \<and> runCmd commands ''quit'' w = w\<lparr>timeOut := True\<rparr>
    \<and> bRun (runCmd commands ''quit'' w) = bRun w
    \<and> (timeOut v \<longrightarrow>
          timeOut (main_iteration env expired isGL v)
        \<and> main_iteration env expired isGL v = draw_frame env isGL (consume env (time_limit expired v))
        \<and> (bRun (draw_frame env isGL v) \<longleftrightarrow>
             bRun v \<and> m_record (sandbox v) \<and> screenshotFile (sandbox v) \<noteq> [])
        \<and> (isGL \<and> \<not> m_record (sandbox v) \<and> screenshotFile (sandbox v) \<noteq> [] \<longrightarrow>
             saved (sandbox (draw_frame env isGL v)) = saved (sandbox v) @ [screenshotFile (sandbox v)]
           \<and> screenshotFile (sandbox (draw_frame env isGL v)) = []
           \<and> \<not> bRun (draw_frame env isGL v)))"
proof -
  have d: "bRun (draw_frame env isGL v) \<longleftrightarrow>
             bRun v \<and> m_record (sandbox v) \<and> screenshotFile (sandbox v) \<noteq> []" if "timeOut v"
    using that by (simp add: draw_frame_def Let_def renderUI_def renderDone_screenshotFile render_fields)
  have t: "timeOut (draw_frame env isGL u) = timeOut u" for u
    by (simp add: draw_frame_def Let_def)
  have m: "main_iteration env expired isGL v = draw_frame env isGL (consume env (time_limit expired v))"
    if "timeOut v"
    using that by (simp add: main_iteration_def Let_def skip_frame_def consume_timeOut time_limit_timeOut)
  have s: "saved (sandbox (draw_frame env isGL v)) = saved (sandbox v) @ [screenshotFile (sandbox v)]
           \<and> screenshotFile (sandbox (draw_frame env isGL v)) = []"
    if "isGL" "\<not> m_record (sandbox v)" "screenshotFile (sandbox v) \<noteq> []"
    using that
    by (simp add: draw_frame_def Let_def renderUI_def renderDone_screenshotFile renderDone_saved render_fields)
  show ?thesis
    using d m s
    by (auto simp: runCmd_q [OF assms] runCmd_quit [OF assms] loop_guard_def t consume_timeOut
        time_limit_timeOut)
qed

text \<open>
  Claim C6 as stated fails: \<^verbatim>\<open>quit\<close> during a recording of ten seconds, with no
  screenshot pending, clears \<^verbatim>\<open>bRun\<close> at the end of the next pass, while the recording
  is still active and its head is before its end.
\<close>

theorem quit_cuts_recording_short:
  "bRun (runCmd example_commands ''quit'' recording_world)
   \<and> \<not> bRun (main_iteration example_env False True (runCmd example_commands ''quit'' recording_world))
   \<and> m_record (sandbox (main_iteration example_env False True
        (runCmd example_commands ''quit'' recording_world)))
   \<and> m_record_head (sandbox (main_iteration example_env False True
        (runCmd example_commands ''quit'' recording_world)))
       < m_record_end (sandbox (main_iteration example_env False True
        (runCmd example_commands ''quit'' recording_world)))"
proof -
  have q: "runCmd example_commands ''quit'' recording_world = recording_world\<lparr>timeOut := True\<rparr>"
    by (rule runCmd_quit [OF registered_example])
  have c: "consume example_env (time_limit False (recording_world\<lparr>timeOut := True\<rparr>))
      = recording_world\<lparr>timeOut := True\<rparr>"
    by (simp add: consume_def time_limit_def recording_world_def idle_world_def)
  have m: "main_iteration example_env False True (recording_world\<lparr>timeOut := True\<rparr>)
      = draw_frame example_env True (recording_world\<lparr>timeOut := True\<rparr>)"
    by (simp add: main_iteration_def Let_def skip_frame_def c)
  show ?thesis
    unfolding q m
    by (simp add: draw_frame_def Let_def renderUI_def renderDone_screenshotFile renderDone_record
        render_fields recording_world_def idle_world_def Sandbox_new_def)
qed

theorem quit_waits_for_screenshot_only_witness:
  "registered example_commands
   \<and> \<not> bRun (runCmd example_commands ''q'' idle_world)
   \<and> timeOut (runCmd example_commands ''quit'' idle_world)
   \<and> bRun (runCmd example_commands ''quit'' idle_world)"
  using quit_waits_for_screenshot_only [OF registered_example, of idle_world True idle_world example_env False]
    registered_example
  by (simp add: idle_world_def)

section \<open>The changed-file slot\<close>

lemma watcher_entry_pending: "fileChanged w \<noteq> - 1 \<Longrightarrow> watcher_entry env i w = w"
  by (simp add: watcher_entry_def watcher_test_def)

lemma fileWatcher_sweep_pending:
  assumes "fileChanged w \<noteq> - 1"
  shows "fileWatcher_sweep env w = w"
proof -
  have "(\<lambda>j t. t = w) (int (length (files w))) (for_loop 0 (int (length (files w))) (watcher_entry env) w)"
    by (rule for_loop_invariant) (simp_all add: watcher_entry_pending assms)
  then show ?thesis by (simp add: fileWatcher_sweep_def)
qed

lemma watcher_entry_valid:
  assumes "valid_slot w" "0 \<le> i" "i < int (length (files w))"
  shows "valid_slot (watcher_entry env i w)"
  using assms
  by (auto simp: valid_slot_def watcher_entry_def watcher_test_def watcher_publish_def Let_def
      split: option.splits)

lemma watcher_entry_never_resets:
  "0 \<le> i \<Longrightarrow> fileChanged (watcher_entry env i w) = - 1 \<Longrightarrow> fileChanged w = - 1"
  by (auto simp: watcher_entry_def watcher_test_def watcher_publish_def Let_def split: option.splits if_splits)

lemma consume_resets: "fileChanged (consume env w) = - 1"
  by (simp add: consume_def Let_def case_prod_beta)

lemma snd_onFileChange_frag:
  assumes "reroute s fs index = (FRAG_SHADER, filename)"
    and "loadFromPath env filename [] [] = (True, src, deps)"
  shows "snd (onFileChange env s fs index) =
     filter (\<lambda>f. type f \<noteq> GLSL_DEPENDENCY) fs
     @ map (dependency_entry env) (merge env deps (m_vert_dependencies s))"
  using assms
  by (simp add: onFileChange_def Let_def case_prod_beta snd_reloadShaders update_dependencies_eq
      reload_program_def flagChange_def)

text \<open>
  Claim C3, evaluated on the code. The slot is a valid index when the watcher tests it
  for entry 1 and finds the include changed. Before the watcher takes the mutex, the
  console publishes index 0 with \<^verbatim>\<open>reload,shader.frag\<close> and the render thread consumes
  it: the fragment shader no longer includes anything, the registry shrinks to one
  entry and the slot is reset. The watcher then publishes its index 1, which is past
  the end of the registry: the slot is neither \<open>-1\<close> nor a valid index. Run without
  interruption, the watcher's loop body keeps the slot valid, drops a detection while
  one is pending and never resets the slot (the lemmas above).
\<close>

theorem watcher_publishes_stale_index:
  "valid_slot watched_world
   \<and> watcher_test example_env watched_world 1 = Some 2
   \<and> fileChanged (runCmd example_commands ''reload,shader.frag'' watched_world) = 0
   \<and> length (files (consume example_env (runCmd example_commands ''reload,shader.frag'' watched_world))) = 1
   \<and> fileChanged (watcher_publish
        (consume example_env (runCmd example_commands ''reload,shader.frag'' watched_world)) 1 2) = 1
   \<and> length (files (watcher_publish
        (consume example_env (runCmd example_commands ''reload,shader.frag'' watched_world)) 1 2)) = 1
   \<and> \<not> valid_slot (watcher_publish
        (consume example_env (runCmd example_commands ''reload,shader.frag'' watched_world)) 1 2)"
proof -
  let ?line = "''reload,shader.frag''"
  have v: "valid_slot watched_world"
    by (simp add: valid_slot_def watched_world_def)
  have t: "watcher_test example_env watched_world 1 = Some 2"
    by (simp add: watcher_test_def watched_world_def example_env_def dep_entry_def Let_def)
  have "filter (\<lambda>t. prefix t ?line) (map begins_with example_commands) = [''reload'']"
    using registered_example by (simp add: registered_def declared_tokens_def)
  then obtain c where c: "c \<in> set example_commands" "begins_with c = ''reload''"
    "dispatch example_commands ?line watched_world = exec c ?line watched_world"
    using dispatch_one_match by blast
  then have "exec c = cmd_reload" using registered_example by (simp add: registered_def)
  then have d: "dispatch example_commands ?line watched_world = cmd_reload ?line watched_world"
    using c(3) by simp
  have h: "cmd_reload ?line watched_world = (True, watched_world\<lparr>fileChanged := 0\<rparr>)"
    by (simp add: cmd_reload_def split_def watched_world_def frag_entry_def dep_entry_def)
  have r: "runCmd example_commands ?line watched_world = watched_world\<lparr>fileChanged := 0\<rparr>"
    by (simp add: runCmd_dispatch d h)
  have rr: "reroute stale_sandbox [frag_entry ''shader.frag'', dep_entry ''inc.glsl''] 0
      = (FRAG_SHADER, ''shader.frag'')"
    by (simp add: reroute_def Let_def frag_entry_def)
  have l: "loadFromPath example_env ''shader.frag'' [] [] = (True, ''void main() {}'', [])"
    by (simp add: example_env_def)
  have m: "merge example_env [] (m_vert_dependencies stale_sandbox) = []"
    by (simp add: example_env_def stale_sandbox_def Sandbox_new_def)
  have f: "files (consume example_env (watched_world\<lparr>fileChanged := 0\<rparr>)) = [frag_entry ''shader.frag'']"
    using snd_onFileChange_frag [OF rr l]
    by (simp add: consume_def Let_def case_prod_beta watched_world_def m frag_entry_def dep_entry_def)
  show ?thesis
    unfolding r using v t f by (simp add: watcher_publish_def valid_slot_def)
qed

end
